theory Spec2Isabelle
  imports Complex_Main "HOL-Library.Multiset"
begin

section \<open>JavaScript numbers\<close>

text \<open>
  A JavaScript number is an IEEE 754 double. For the wheel, where a congruence of
  angles is at stake, the arithmetic is modelled as it rounds: a double is the real
  number it stands for, and \<^verbatim>\<open>+\<close>, \<^verbatim>\<open>-\<close>, \<^verbatim>\<open>*\<close> and \<^verbatim>\<open>/\<close> return the double nearest to the
  exact result, a tie going to the even significand. Overflow, subnormal numbers, the
  infinities and NaN are not modelled, so a divisor is never zero here; list lengths and
  indices are integers below \<open>2^53\<close> and are doubles as they are. The lane races further
  down are modelled in exact real arithmetic: their statements are inequalities with
  margins far above the rounding.
\<close>

text \<open>
  The binade of a number \<open>x \<noteq> 0\<close>: the integer \<open>e\<close> with \<open>2^e \<le> |x| < 2^(e+1)\<close>, found by
  halving from 1 upwards and by doubling below 1.
\<close>

function binadeUp :: "real \<Rightarrow> int" where
  "binadeUp x = (if x < 2 then 0 else binadeUp (x / 2) + 1)"
  by pat_completeness auto
termination
proof (relation "measure (\<lambda>x. nat \<lfloor>x\<rfloor>)")
  show "wf (measure (\<lambda>x::real. nat \<lfloor>x\<rfloor>))" by simp
next
  fix x :: real
  assume "\<not> x < 2"
  then have "\<lfloor>x / 2\<rfloor> < \<lfloor>x\<rfloor>" and "0 < \<lfloor>x\<rfloor>" by linarith+
  then show "(x / 2, x) \<in> measure (\<lambda>x. nat \<lfloor>x\<rfloor>)" by simp
qed

function binadeDown :: "real \<Rightarrow> int" where
  "binadeDown x = (if 1 \<le> x \<or> x \<le> 0 then 0 else binadeDown (2 * x) - 1)"
  by pat_completeness auto
termination
proof (relation "measure (\<lambda>x. nat \<lfloor>1 / x\<rfloor>)")
  show "wf (measure (\<lambda>x::real. nat \<lfloor>1 / x\<rfloor>))" by simp
next
  fix x :: real
  assume a: "\<not> (1 \<le> x \<or> x \<le> 0)"
  define y where "y = 1 / x"
  have y: "1 < y" unfolding y_def using a by simp
  have h: "1 / (2 * x) = y / 2" unfolding y_def by simp
  have f: "1 \<le> \<lfloor>y\<rfloor>" using y by linarith
  then have "1 \<le> (of_int \<lfloor>y\<rfloor> :: real)" by linarith
  moreover have "y < of_int \<lfloor>y\<rfloor> + 1" by linarith
  ultimately have "y / 2 < of_int \<lfloor>y\<rfloor>" by linarith
  then have "\<lfloor>y / 2\<rfloor> < \<lfloor>y\<rfloor>" by (simp add: floor_less_iff)
  moreover have "0 < \<lfloor>y\<rfloor>" using f by simp
  ultimately have "\<lfloor>y / 2\<rfloor> < \<lfloor>y\<rfloor>" and "0 < \<lfloor>y\<rfloor>" by simp_all
  then have "nat \<lfloor>1 / (2 * x)\<rfloor> < nat \<lfloor>1 / x\<rfloor>" unfolding h unfolding y_def by simp
  then show "(2 * x, x) \<in> measure (\<lambda>x. nat \<lfloor>1 / x\<rfloor>)" by simp
qed

declare binadeUp.simps [simp del] binadeDown.simps [simp del]

definition binade :: "real \<Rightarrow> int" where
  "binade x = (if 1 \<le> \<bar>x\<bar> then binadeUp \<bar>x\<bar> else binadeDown \<bar>x\<bar>)"

text \<open>The spacing of the doubles in the binade of \<open>x\<close>: 53 significant bits.\<close>

definition ulp :: "real \<Rightarrow> real" where
  "ulp x = 2 powi (binade x - 52)"

text \<open>Rounding to the nearest integer, a tie to the even one.\<close>

definition roundEven :: "real \<Rightarrow> int" where
  "roundEven q =
     (let f = \<lfloor>q\<rfloor>; r = q - of_int f
      in if r < 1 / 2 then f else if 1 / 2 < r then f + 1 else if even f then f else f + 1)"

text \<open>The double nearest to a real number.\<close>

definition roundDouble :: "real \<Rightarrow> real" where
  "roundDouble x = (if x = 0 then 0 else of_int (roundEven (x / ulp x)) * ulp x)"

text \<open>The arithmetic operators on doubles.\<close>

definition jsAdd :: "real \<Rightarrow> real \<Rightarrow> real" where
  "jsAdd a b = roundDouble (a + b)"

definition jsSub :: "real \<Rightarrow> real \<Rightarrow> real" where
  "jsSub a b = roundDouble (a - b)"

definition jsMul :: "real \<Rightarrow> real \<Rightarrow> real" where
  "jsMul a b = roundDouble (a * b)"

definition jsDiv :: "real \<Rightarrow> real \<Rightarrow> real" where
  "jsDiv a b = roundDouble (a / b)"

text \<open>
  \<open>js_rem a b\<close> is the remainder operator \<^verbatim>\<open>a % b\<close>: the quotient is truncated towards
  zero, so the result has the sign of the dividend. The remainder of two doubles is a
  double, so nothing is rounded. It is only used with the divisor 360.
\<close>

definition js_rem :: "real \<Rightarrow> real \<Rightarrow> real" where
  "js_rem a b = a - b * of_int (if 0 \<le> a / b then \<lfloor>a / b\<rfloor> else \<lceil>a / b\<rceil>)"

text \<open>The relative rounding error of a double operation is at most \<open>2^-53\<close>.\<close>

definition unitRoundoff :: real where
  "unitRoundoff = 1 / 2 ^ 53"

section \<open>SpinWheel: the target rotation of a spin\<close>

text \<open>
  \<^verbatim>\<open>const segmentAngle = 360 / numSegments;\<close> with \<^verbatim>\<open>numSegments = names.length\<close>.
\<close>

definition segmentAngle :: "nat \<Rightarrow> real" where
  "segmentAngle numSegments = jsDiv 360 (real numSegments)"

text \<open>\<^verbatim>\<open>const Ac = winnerIndex * segmentAngle + (segmentAngle / 2);\<close>\<close>

definition Ac :: "nat \<Rightarrow> nat \<Rightarrow> real" where
  "Ac numSegments winnerIndex =
     jsAdd (jsMul (real winnerIndex) (segmentAngle numSegments))
           (jsDiv (segmentAngle numSegments) 2)"

text \<open>
  The body of the spin effect up to \<^verbatim>\<open>setRotation(newTotalRotation)\<close>:
  \<^verbatim>\<open>
  const L = Ac;
  const V = lastRotation % 360;
  let minRotationDelta = (L - V + 360) % 360;
  if (minRotationDelta < 1) minRotationDelta += 360;
  const fullSpins = 5;
  const rotationDelta = minRotationDelta + (360 * fullSpins);
  const newTotalRotation = lastRotation + rotationDelta;
  \<close>
\<close>

definition minRotationDelta :: "nat \<Rightarrow> nat \<Rightarrow> real \<Rightarrow> real" where
  "minRotationDelta numSegments winnerIndex lastRotation =
     (let L = Ac numSegments winnerIndex;
          V = js_rem lastRotation 360;
          d = js_rem (jsAdd (jsSub L V) 360) 360
      in if d < 1 then jsAdd d 360 else d)"

definition fullSpins :: real where
  "fullSpins = 5"

definition newTotalRotation :: "nat \<Rightarrow> nat \<Rightarrow> real \<Rightarrow> real" where
  "newTotalRotation numSegments winnerIndex lastRotation =
     (let rotationDelta = jsAdd (minRotationDelta numSegments winnerIndex lastRotation)
                                (jsMul 360 fullSpins)
      in jsAdd lastRotation rotationDelta)"

subsection \<open>SpinWheel: the drawing\<close>

text \<open>
  The slices, as \<^verbatim>\<open>names.map((name, i) => ...)\<close> draws them:
  \<^verbatim>\<open>
  const startAngle = i * segmentAngle;
  const endAngle = (i + 1) * segmentAngle;
  const textAngle = startAngle + segmentAngle / 2;
  \<close>
  Slice \<open>i\<close> is the sector between the wheel angles \<open>startAngle\<close> and \<open>endAngle\<close>, and its
  label sits at \<open>textAngle\<close>.
\<close>

definition startAngle :: "nat \<Rightarrow> nat \<Rightarrow> real" where
  "startAngle numSegments i = jsMul (real i) (segmentAngle numSegments)"

definition endAngle :: "nat \<Rightarrow> nat \<Rightarrow> real" where
  "endAngle numSegments i = jsMul (real (i + 1)) (segmentAngle numSegments)"

definition textAngle :: "nat \<Rightarrow> nat \<Rightarrow> real" where
  "textAngle numSegments i = jsAdd (startAngle numSegments i) (jsDiv (segmentAngle numSegments) 2)"

text \<open>
  Where the drawing puts a wheel angle: the slice corners and the label are computed
  with \<^verbatim>\<open>degToRad(angle - 90)\<close> (\<^verbatim>\<open>// -90 to start from top\<close>), so the wheel angle
  \<open>angle\<close> lies in the direction \<open>angle - 90\<close> degrees of the SVG coordinates, in which the
  direction \<open>- 90\<close> is straight up. The group of the slices has the transform
  \<^verbatim>\<open>rotate(-${rotation}deg)\<close>, which turns every direction by \<open>- rotation\<close>. The static
  pointer is the polygon with the corner \<^verbatim>\<open>${center},0\<close>, straight above the centre
  \<^verbatim>\<open>(center, center)\<close> of the wheel. Directions are real numbers of degrees; the
  turning by the browser is taken as exact.
\<close>

definition sliceDirection :: "real \<Rightarrow> real" where
  "sliceDirection angle = angle - 90"

definition shownDirection :: "real \<Rightarrow> real \<Rightarrow> real" where
  "shownDirection rotation direction = direction - rotation"

definition pointerDirection :: real where
  "pointerDirection = - 90"

text \<open>
  The wheel angle in \<open>[0, 360)\<close> that a rotation shows in the direction of the pointer,
  and whether slice \<open>i\<close> is the one under the pointer.
\<close>

definition pointerAngle :: "real \<Rightarrow> real" where
  "pointerAngle rotation = rotation - 360 * of_int \<lfloor>rotation / 360\<rfloor>"

definition underPointer :: "nat \<Rightarrow> real \<Rightarrow> nat \<Rightarrow> bool" where
  "underPointer numSegments rotation i =
     (startAngle numSegments i \<le> pointerAngle rotation
      \<and> pointerAngle rotation \<le> endAngle numSegments i)"

section \<open>The application state\<close>

datatype DrawMode = Single | Paired | Groups | Interactive

datatype InteractiveMode = Wheel | Race | Marble | Card

text \<open>
  \<^verbatim>\<open>interface HistoryEntry { id; result; mode; timestamp; groups? }\<close>. The fields carry
  the prefix \<open>h_\<close>, since \<open>id\<close> is a constant of HOL and \<open>mode\<close> is also a field of the
  application state.
\<close>

record HistoryEntry =
  h_id :: nat
  h_result :: string
  h_mode :: DrawMode
  h_timestamp :: string
  h_groups :: "string list list option"

record AppState =
  names :: "string list"
  tasks :: "string list"
  history :: "HistoryEntry list"
  isNameNoRepeat :: bool
  availableNamesIndices :: "nat list"
  isTaskNoRepeat :: bool
  availableTasksIndices :: "nat list"
  mode :: DrawMode
  interactiveMode :: InteractiveMode
  numGroups :: int

text \<open>
  The other state hooks of the \<^verbatim>\<open>App\<close> component that the draw logic writes:
  \<^verbatim>\<open>isSpinning\<close>, \<^verbatim>\<open>currentWinner\<close>, \<^verbatim>\<open>tempMessage\<close> (the toast) and
  \<^verbatim>\<open>resultCardText\<close>. The sound, the animation of the result card, the timer that
  clears the toast and the clearing of the input fields are left out.
\<close>

record View =
  isSpinning :: bool
  currentWinner :: "(string \<times> nat) option"
  tempMessage :: "string option"
  resultCardText :: string

text \<open>
  A handler runs against the state \<open>s\<close> of the render it was created in (the closure
  variable \<^verbatim>\<open>state\<close>) and queues updates. \<^verbatim>\<open>updateState(u)\<close> is
  \<^verbatim>\<open>setState(prev => ({...prev, ...u}))\<close>: the queued updates are applied in order to
  the pending state. The functions below therefore read from \<open>s\<close> and transform a pending
  pair of application state and view.
\<close>

type_synonym pending = "AppState \<times> View"

definition updateState :: "(AppState \<Rightarrow> AppState) \<Rightarrow> pending \<Rightarrow> pending" where
  "updateState u w = (u (fst w), snd w)"

definition showToast :: "string \<Rightarrow> pending \<Rightarrow> pending" where
  "showToast msg w = (fst w, (snd w)\<lparr>tempMessage := Some msg\<rparr>)"

definition setResultCardText :: "string \<Rightarrow> pending \<Rightarrow> pending" where
  "setResultCardText txt w = (fst w, (snd w)\<lparr>resultCardText := txt\<rparr>)"

definition setCurrentWinner :: "(string \<times> nat) option \<Rightarrow> pending \<Rightarrow> pending" where
  "setCurrentWinner cw w = (fst w, (snd w)\<lparr>currentWinner := cw\<rparr>)"

definition setIsSpinning :: "bool \<Rightarrow> pending \<Rightarrow> pending" where
  "setIsSpinning b w = (fst w, (snd w)\<lparr>isSpinning := b\<rparr>)"

text \<open>\<^verbatim>\<open>list.map((_, i) => i)\<close>: the full index range of a list.\<close>

definition allIndices :: "'a list \<Rightarrow> nat list" where
  "allIndices xs = [0..<length xs]"

definition resetAvailableNames :: "AppState \<Rightarrow> pending \<Rightarrow> pending" where
  "resetAvailableNames s = updateState (\<lambda>p. p\<lparr>availableNamesIndices := allIndices (names s)\<rparr>)"

definition resetAvailableTasks :: "AppState \<Rightarrow> pending \<Rightarrow> pending" where
  "resetAvailableTasks s = updateState (\<lambda>p. p\<lparr>availableTasksIndices := allIndices (tasks s)\<rparr>)"

subsection \<open>Strings\<close>

text \<open>
  Strings are lists of characters, one \<open>char\<close> per code unit (code units above 255 are
  not representable). \<open>isWhiteSpace\<close> is the white space and line terminator set that
  \<^verbatim>\<open>trim\<close> strips, restricted to that range.
\<close>

definition isWhiteSpace :: "char \<Rightarrow> bool" where
  "isWhiteSpace c = (of_char c \<in> {9, 10, 11, 12, 13, 32, 160 :: nat})"

definition trim :: "string \<Rightarrow> string" where
  "trim v = rev (dropWhile isWhiteSpace (rev (dropWhile isWhiteSpace v)))"

definition isLineSep :: "char \<Rightarrow> bool" where
  "isLineSep c = (of_char c \<in> {9, 10 :: nat})"

text \<open>\<^verbatim>\<open>value.split(/[\n\t]+/)\<close>: \<open>cur\<close> is the current piece, reversed.\<close>

function splitLines :: "string \<Rightarrow> string \<Rightarrow> string list" where
  "splitLines cur [] = [rev cur]"
| "splitLines cur (c # cs) =
     (if isLineSep c then rev cur # splitLines [] (dropWhile isLineSep cs)
      else splitLines (c # cur) cs)"
  by pat_completeness auto
termination
  by (relation "measure (\<lambda>(cur, cs). length cs)")
     (auto simp: less_Suc_eq_le length_dropWhile_le)

definition digitChar :: "nat \<Rightarrow> char" where
  "digitChar d = char_of (48 + d)"

text \<open>The decimal digits of a number, as a template literal prints it.\<close>

fun showNat :: "nat \<Rightarrow> string" where
  "showNat n = (if n < 10 then [digitChar n] else showNat (n div 10) @ [digitChar (n mod 10)])"

declare showNat.simps [simp del]

text \<open>\<^verbatim>\<open>xs.join(sep)\<close>\<close>

fun join :: "string \<Rightarrow> string list \<Rightarrow> string" where
  "join sep [] = []"
| "join sep [x] = x"
| "join sep (x # y # ys) = x @ sep @ join sep (y # ys)"

subsection \<open>Editing the lists\<close>

datatype ListType = Names | Tasks

text \<open>
  \<^verbatim>\<open>addItems(type, value)\<close>: names are split at runs of newlines and tabs, a task is a
  single item; items already in the list are dropped, and when something is left, the
  list is extended and the pool of that list is set to the full index range.
\<close>

definition addItems :: "ListType \<Rightarrow> string \<Rightarrow> AppState \<Rightarrow> pending \<Rightarrow> pending" where
  "addItems type v s w =
     (if trim v = [] then w
      else
        let newItems = (if type = Names
                        then filter (\<lambda>i. 0 < length i) (map trim (splitLines [] v))
                        else [trim v]);
            currentList = (if type = Names then names s else tasks s);
            uniqueNewItems = filter (\<lambda>i. i \<notin> set currentList) newItems
        in if 0 < length uniqueNewItems then
             let updatedList = currentList @ uniqueNewItems;
                 w1 = (if type = Names
                       then updateState (\<lambda>p. p\<lparr>names := updatedList,
                                availableNamesIndices := allIndices updatedList\<rparr>) w
                       else updateState (\<lambda>p. p\<lparr>tasks := updatedList,
                                availableTasksIndices := allIndices updatedList\<rparr>) w)
             in showToast (showNat (length uniqueNewItems) @ '' item(s) added.'') w1
           else showToast ''Items already exist in the list.'' w)"

text \<open>
  \<^verbatim>\<open>removeItem(type, index)\<close>, with \<^verbatim>\<open>list.splice(index, 1)\<close> on a copy: an index
  beyond the end removes nothing. The index is a position handed over by the list view.
\<close>

definition splice1 :: "nat \<Rightarrow> 'a list \<Rightarrow> 'a list" where
  "splice1 index xs = take index xs @ drop (Suc index) xs"

definition removeItem :: "ListType \<Rightarrow> nat \<Rightarrow> AppState \<Rightarrow> pending \<Rightarrow> pending" where
  "removeItem type index s w =
     (let list = splice1 index (if type = Names then names s else tasks s)
      in if type = Names
         then updateState (\<lambda>p. p\<lparr>names := list, availableNamesIndices := allIndices list\<rparr>) w
         else updateState (\<lambda>p. p\<lparr>tasks := list, availableTasksIndices := allIndices list\<rparr>) w)"

definition clearList :: "ListType \<Rightarrow> pending \<Rightarrow> pending" where
  "clearList type w =
     (if type = Names
      then updateState (\<lambda>p. p\<lparr>names := [], availableNamesIndices := [], history := []\<rparr>) w
      else updateState (\<lambda>p. p\<lparr>tasks := [], availableTasksIndices := []\<rparr>) w)"

text \<open>
  \<^verbatim>\<open>Math.floor(Math.random() * n)\<close>, for a value \<open>r\<close> of \<^verbatim>\<open>Math.random()\<close>, which lies
  in \<open>[0, 1)\<close>.
\<close>

definition randomIndex :: "real \<Rightarrow> nat \<Rightarrow> nat" where
  "randomIndex r n = nat \<lfloor>r * real n\<rfloor>"

text \<open>
  The loop of \<^verbatim>\<open>shuffleNames\<close>, \<^verbatim>\<open>for (let i = shuffled.length - 1; i > 0; i--)\<close>, with
  the values of \<^verbatim>\<open>Math.random()\<close> taken from a list, one per iteration. When the values
  run out the loop stops; a call passes one value per iteration.
\<close>

fun fisherYates :: "nat \<Rightarrow> real list \<Rightarrow> 'a list \<Rightarrow> 'a list" where
  "fisherYates 0 rs shuffled = shuffled"
| "fisherYates (Suc i) [] shuffled = shuffled"
| "fisherYates (Suc i) (r # rs) shuffled =
     (let j = randomIndex r (Suc i + 1)
      in fisherYates i rs (shuffled[Suc i := shuffled ! j, j := shuffled ! Suc i]))"

definition shuffleNames :: "real list \<Rightarrow> AppState \<Rightarrow> pending \<Rightarrow> pending" where
  "shuffleNames rs s w =
     (let shuffled = fisherYates (length (names s) - 1) rs (names s);
          w1 = updateState (\<lambda>p. p\<lparr>names := shuffled,
                  availableNamesIndices := allIndices shuffled, history := []\<rparr>) w
      in showToast ''Names shuffled & history cleared.'' w1)"

text \<open>
  The \<^verbatim>\<open>onChange\<close> handlers of the two no-repeat switches:
  \<^verbatim>\<open>
  const newVal = !state.isNameNoRepeat;
  updateState({ isNameNoRepeat: newVal });
  if (newVal) resetAvailableNames();
  \<close>
\<close>

definition toggleNameNoRepeat :: "AppState \<Rightarrow> pending \<Rightarrow> pending" where
  "toggleNameNoRepeat s w =
     (let newVal = \<not> isNameNoRepeat s;
          w1 = updateState (\<lambda>p. p\<lparr>isNameNoRepeat := newVal\<rparr>) w
      in if newVal then resetAvailableNames s w1 else w1)"

definition toggleTaskNoRepeat :: "AppState \<Rightarrow> pending \<Rightarrow> pending" where
  "toggleTaskNoRepeat s w =
     (let newVal = \<not> isTaskNoRepeat s;
          w1 = updateState (\<lambda>p. p\<lparr>isTaskNoRepeat := newVal\<rparr>) w
      in if newVal then resetAvailableTasks s w1 else w1)"

subsection \<open>The draw logic\<close>

text \<open>
  \<^verbatim>\<open>selectNameIndex()\<close>, for the value \<open>r\<close> that \<^verbatim>\<open>Math.random()\<close> returns when it is
  called. The result \<open>None\<close> is \<^verbatim>\<open>null\<close>. The pool read is \<^verbatim>\<open>pool[randIndex]\<close>; for
  \<open>r\<close> in \<open>[0, 1)\<close> and a non-empty pool the index is inside the pool.
\<close>

definition selectNameIndex :: "AppState \<Rightarrow> real \<Rightarrow> pending \<Rightarrow> nat option \<times> pending" where
  "selectNameIndex s r w =
     (if length (names s) = 0 then (None, w)
      else
        let pool0 = (if isNameNoRepeat s then availableNamesIndices s else allIndices (names s));
            pool = filter (\<lambda>i. i < length (names s)) pool0
        in if isNameNoRepeat s \<and> length pool = 0 then
             (None, resetAvailableNames s (showToast ''All names drawn! Resetting list.'' w))
           else
             let randIndex = randomIndex r (length pool);
                 selectedIndex = pool ! randIndex;
                 w1 = (if isNameNoRepeat s
                       then updateState (\<lambda>p. p\<lparr>availableNamesIndices := splice1 randIndex pool\<rparr>) w
                       else w)
             in (Some selectedIndex, w1))"

text \<open>\<^verbatim>\<open>selectTask()\<close>: an exhausted pool is reset and refetched before the selection.\<close>

definition selectTask :: "AppState \<Rightarrow> real \<Rightarrow> pending \<Rightarrow> string \<times> pending" where
  "selectTask s r w =
     (if length (tasks s) = 0 then (''No Task'', w)
      else
        let pool0 = (if isTaskNoRepeat s then availableTasksIndices s else allIndices (tasks s));
            pool1 = filter (\<lambda>i. i < length (tasks s)) pool0;
            exhausted = (isTaskNoRepeat s \<and> length pool1 = 0);
            w0 = (if exhausted
                  then resetAvailableTasks s
                         (showToast ''All tasks assigned! Resetting task list.'' w)
                  else w);
            pool = (if exhausted then allIndices (tasks s) else pool1);
            randIndex = randomIndex r (length pool);
            selectedIndex = pool ! randIndex;
            w1 = (if isTaskNoRepeat s
                  then updateState (\<lambda>p. p\<lparr>availableTasksIndices := splice1 randIndex pool\<rparr>) w0
                  else w0)
        in (tasks s ! selectedIndex, w1))"

text \<open>
  What a call of \<^verbatim>\<open>handleDraw\<close> takes from its host: \<^verbatim>\<open>Date.now()\<close>, the string of
  \<^verbatim>\<open>new Date().toLocaleTimeString()\<close>, the values of \<^verbatim>\<open>Math.random()\<close> used for the
  name and for the task, and the result of the engine's
  \<^verbatim>\<open>sort(() => Math.random() - 0.5)\<close> on a copy of the names.
\<close>

record Host =
  dateNow :: nat
  timeString :: string
  randomName :: real
  randomTask :: real
  sortRandom :: "string list \<Rightarrow> string list"

text \<open>
  \<^verbatim>\<open>logHistory(result, groups)\<close>: the entry it builds, and the update, which puts the
  entry in front and cuts the log to 50 entries.
\<close>

definition newEntry :: "AppState \<Rightarrow> Host \<Rightarrow> string \<Rightarrow> string list list option \<Rightarrow> HistoryEntry" where
  "newEntry s h res grps =
     \<lparr>h_id = dateNow h, h_result = res, h_mode = mode s,
      h_timestamp = timeString h, h_groups = grps\<rparr>"

definition logHistory ::
  "AppState \<Rightarrow> Host \<Rightarrow> string \<Rightarrow> string list list option \<Rightarrow> pending \<Rightarrow> pending" where
  "logHistory s h res grps w =
     (let entry = newEntry s h res grps
      in updateState (\<lambda>p. p\<lparr>history := take 50 (entry # history s)\<rparr>) w)"

text \<open>
  \<^verbatim>\<open>shuffled.forEach((name, i) => groups[i % state.numGroups].push(name))\<close>, from
  position \<open>i\<close> on.
\<close>

fun roundRobin :: "nat \<Rightarrow> nat \<Rightarrow> 'a list \<Rightarrow> 'a list list \<Rightarrow> 'a list list" where
  "roundRobin k i [] groups = groups"
| "roundRobin k i (name # rest) groups =
     roundRobin k (Suc i) rest (groups[i mod k := groups ! (i mod k) @ [name]])"

text \<open>
  The groups of a group draw: \<^verbatim>\<open>Array.from({ length: numGroups }, () => [])\<close> filled
  round-robin from the shuffled copy.
\<close>

definition makeGroups :: "nat \<Rightarrow> 'a list \<Rightarrow> 'a list list" where
  "makeGroups k shuffled = roundRobin k 0 shuffled (replicate k [])"

text \<open>\<^verbatim>\<open>groups.map((g, i) => `Group ${i + 1}: ${g.join(', ')}`).join(' | ')\<close>\<close>

definition groupsText :: "string list list \<Rightarrow> string" where
  "groupsText gs =
     join '' | '' (map (\<lambda>(i, g). ''Group '' @ showNat (i + 1) @ '': '' @ join '', '' g)
                       (enumerate 0 gs))"

definition handleDraw :: "AppState \<Rightarrow> View \<Rightarrow> Host \<Rightarrow> pending" where
  "handleDraw s v h =
     (let w = (s, v) in
      if length (names s) = 0 then showToast ''Add names first.'' w
      else if mode s = Groups then
        (if numGroups s \<le> 0 then showToast ''Invalid group number.'' w
         else if int (length (names s)) < numGroups s
           then showToast (''Need at least '' @ showNat (nat (numGroups s)) @ '' names.'') w
         else
           let shuffled = sortRandom h (names s);
               grps = makeGroups (nat (numGroups s)) shuffled;
               resultText = groupsText grps;
               w1 = logHistory s h resultText (Some grps) w
           in setResultCardText
                (''Groups Created! ('' @ showNat (nat (numGroups s)) @ '' groups)'') w1)
      else if mode s = Interactive then
        (if length (names s) < 2 then showToast ''Need at least 2 names.'' w
         else if isSpinning v then w
         else
           (case selectNameIndex s (randomName h) w of
              (None, w1) \<Rightarrow> w1
            | (Some idx, w1) \<Rightarrow>
                setResultCardText ''...ANIMATING...''
                  (setIsSpinning True (setCurrentWinner (Some (names s ! idx, idx)) w1))))
      else
        (case selectNameIndex s (randomName h) w of
           (None, w1) \<Rightarrow> w1
         | (Some idx, w1) \<Rightarrow>
             let name = names s ! idx in
             if mode s = Paired then
               (if length (tasks s) = 0 then showToast ''Add tasks for paired mode.'' w1
                else
                  let (task, w2) = selectTask s (randomTask h) w1;
                      res = name @ '' is assigned to: '' @ task
                  in setResultCardText res (logHistory s h res None w2))
             else setResultCardText name (logHistory s h name None w1)))"

text \<open>\<^verbatim>\<open>handleInteractiveEnd\<close>, the completion callback handed to the four simulators.\<close>

definition handleInteractiveEnd :: "AppState \<Rightarrow> View \<Rightarrow> Host \<Rightarrow> pending" where
  "handleInteractiveEnd s v h =
     (let w = (s, v) in
      case currentWinner v of
        None \<Rightarrow> w
      | Some (name, idx) \<Rightarrow>
          logHistory s h name None (setResultCardText name (setIsSpinning False w)))"

subsection \<open>Successive draws\<close>

text \<open>
  A sequence of draws of a name, one value of \<^verbatim>\<open>Math.random()\<close> each. Every draw runs in
  the render that follows the previous one, so its closure state is the pending state
  the previous draw left.
\<close>

fun successiveDraws :: "real list \<Rightarrow> pending \<Rightarrow> nat option list \<times> pending" where
  "successiveDraws [] w = ([], w)"
| "successiveDraws (r # rs) w =
     (let (res, w1) = selectNameIndex (fst w) r w;
          (ress, w2) = successiveDraws rs w1
      in (res # ress, w2))"

text \<open>A small state: three names, no-repeat on, the pool full.\<close>

definition exampleState :: AppState where
  "exampleState = \<lparr>names = [''A'', ''B'', ''C''], tasks = [], history = [],
     isNameNoRepeat = True, availableNamesIndices = [0, 1, 2], isTaskNoRepeat = False,
     availableTasksIndices = [], mode = Single, interactiveMode = Wheel, numGroups = 2\<rparr>"

definition exampleView :: View where
  "exampleView = \<lparr>isSpinning = False, currentWinner = None, tempMessage = None,
     resultCardText = ''Click 'DRAW LOTS' to begin!''\<rparr>"

text \<open>
  A state for a group draw of five names into two groups, and a host whose engine
  sort returns the names reversed.
\<close>

definition groupsState :: AppState where
  "groupsState = \<lparr>names = [''A'', ''B'', ''C'', ''D'', ''E''], tasks = [], history = [],
     isNameNoRepeat = False, availableNamesIndices = [0, 1, 2, 3, 4], isTaskNoRepeat = False,
     availableTasksIndices = [], mode = Groups, interactiveMode = Wheel, numGroups = 2\<rparr>"

definition exampleHost :: Host where
  "exampleHost = \<lparr>dateNow = 1700000000000, timeString = ''10:15:00'', randomName = 1/2,
     randomTask = 1/4, sortRandom = rev\<rparr>"

subsection \<open>Successive appends to the history\<close>




subsection \<open>States for paired draws\<close>

text \<open>
  A paired draw whose task pool is used up; a single draw whose name pool is used up; a
  paired draw of one name without any task.
\<close>

definition pairedState :: AppState where
  "pairedState = \<lparr>names = [''A'', ''B'', ''C''], tasks = [''Read'', ''Write''], history = [],
     isNameNoRepeat = True, availableNamesIndices = [0, 2], isTaskNoRepeat = True,
     availableTasksIndices = [], mode = Paired, interactiveMode = Wheel, numGroups = 2\<rparr>"

definition exhaustedState :: AppState where
  "exhaustedState = \<lparr>names = [''A'', ''B'', ''C''], tasks = [], history = [],
     isNameNoRepeat = True, availableNamesIndices = [], isTaskNoRepeat = False,
     availableTasksIndices = [], mode = Single, interactiveMode = Wheel, numGroups = 2\<rparr>"

definition pairedNoTasks :: AppState where
  "pairedNoTasks = \<lparr>names = [''A''], tasks = [], history = [],
     isNameNoRepeat = True, availableNamesIndices = [0], isTaskNoRepeat = False,
     availableTasksIndices = [], mode = Paired, interactiveMode = Wheel, numGroups = 2\<rparr>"

section \<open>Timers, animation frames and the effects of the simulators\<close>

text \<open>
  The simulators schedule their work with \<^verbatim>\<open>setTimeout\<close> and
  \<^verbatim>\<open>requestAnimationFrame\<close>. The host is modelled by a record that holds the clock (in
  milliseconds), the pending timers (handle, due time, callback) and the pending frame
  requests (handle, callback), next to the state of the components that the callbacks
  write. \<open>completions\<close> counts the invocations of the completion callback of a session
  (\<^verbatim>\<open>onSpinEnd\<close>, \<^verbatim>\<open>onRaceEnd\<close>, \<^verbatim>\<open>onEnd\<close>) and \<open>soundsPlayed\<close> the calls of
  \<^verbatim>\<open>playDrawSound\<close>. Handles start at 1, as in a browser. The drawing on the canvas and
  the CSS transition are left out.
\<close>

datatype CardStep = Idle | Shuffling | Picking | Revealed

datatype Callback =
    WheelSpinDone real
  | CardPicking
  | CardRevealed
  | CardEnd
  | RaceEnd
  | MarbleAnimate

record World =
  now :: real
  timers :: "(nat \<times> real \<times> Callback) list"
  frameRequests :: "(nat \<times> Callback) list"
  nextHandle :: nat
  completions :: nat
  soundsPlayed :: nat
  wheelRotation :: real
  wheelLastRotation :: real
  cardStep :: CardStep
  marbleRequestRef :: nat
  marbleStartTimeRef :: real
  marbleWinnerDeclared :: bool

definition setTimeout :: "Callback \<Rightarrow> real \<Rightarrow> World \<Rightarrow> nat \<times> World" where
  "setTimeout cb delay w =
     (nextHandle w,
      w\<lparr>timers := timers w @ [(nextHandle w, now w + delay, cb)],
        nextHandle := nextHandle w + 1\<rparr>)"

definition clearTimeout :: "nat \<Rightarrow> World \<Rightarrow> World" where
  "clearTimeout handle w = w\<lparr>timers := filter (\<lambda>t. fst t \<noteq> handle) (timers w)\<rparr>"

definition requestAnimationFrame :: "Callback \<Rightarrow> World \<Rightarrow> nat \<times> World" where
  "requestAnimationFrame cb w =
     (nextHandle w,
      w\<lparr>frameRequests := frameRequests w @ [(nextHandle w, cb)],
        nextHandle := nextHandle w + 1\<rparr>)"

definition cancelAnimationFrame :: "nat \<Rightarrow> World \<Rightarrow> World" where
  "cancelAnimationFrame handle w =
     w\<lparr>frameRequests := filter (\<lambda>f. fst f \<noteq> handle) (frameRequests w)\<rparr>"

definition playDrawSound :: "World \<Rightarrow> World" where
  "playDrawSound w = w\<lparr>soundsPlayed := soundsPlayed w + 1\<rparr>"

definition complete :: "World \<Rightarrow> World" where
  "complete w = w\<lparr>completions := completions w + 1\<rparr>"

text \<open>A prop such as \<^verbatim>\<open>winnerName\<close> is truthy when it is a non-empty string.\<close>

definition truthy :: "string option \<Rightarrow> bool" where
  "truthy x = (case x of None \<Rightarrow> False | Some str \<Rightarrow> str \<noteq> [])"

subsection \<open>SpinWheel\<close>

text \<open>
  The spin effect: it sets the rotation and one timer of 6000 ms, and returns the
  cleanup \<^verbatim>\<open>() => clearTimeout(timer)\<close>, here the handle of the timer. Without a spin
  there is no cleanup.
\<close>

definition wheelEffect :: "nat \<Rightarrow> bool \<Rightarrow> nat option \<Rightarrow> World \<Rightarrow> nat option \<times> World" where
  "wheelEffect numSegments spinning winnerIndex w =
     (case winnerIndex of
        Some wi \<Rightarrow>
          if spinning then
            let newTotal = newTotalRotation numSegments wi (wheelLastRotation w);
                (timer, w1) = setTimeout (WheelSpinDone newTotal) 6000
                                (w\<lparr>wheelRotation := newTotal\<rparr>)
            in (Some timer, w1)
          else (None, w)
      | None \<Rightarrow> (None, w))"

definition wheelCleanup :: "nat option \<Rightarrow> World \<Rightarrow> World" where
  "wheelCleanup c w = (case c of Some timer \<Rightarrow> clearTimeout timer w | None \<Rightarrow> w)"

subsection \<open>CardDraw\<close>

text \<open>
  The effect of the card draw sets three timers and returns no cleanup function, so
  tearing the component down runs nothing.
\<close>

definition cardEffect :: "bool \<Rightarrow> string option \<Rightarrow> World \<Rightarrow> World" where
  "cardEffect running winnerName w =
     (if running \<and> truthy winnerName then
        let w1 = w\<lparr>cardStep := Shuffling\<rparr>;
            w2 = snd (setTimeout CardPicking 2000 w1);
            w3 = snd (setTimeout CardRevealed 3000 w2)
        in snd (setTimeout CardEnd 5000 w3)
      else w\<lparr>cardStep := Idle\<rparr>)"

definition cardCleanup :: "World \<Rightarrow> World" where
  "cardCleanup w = w"

subsection \<open>MarbleRace: the scheduling of the race loop\<close>

text \<open>
  \<^verbatim>\<open>animate(timestamp)\<close> of the marble race, as far as it schedules: the start time is
  taken from the first frame, the winner is declared once 3500 ms have elapsed, which
  sets the timer for \<^verbatim>\<open>onRaceEnd\<close>, and the next frame is requested while the winner is
  not declared or less than 6000 ms have elapsed. The positions of the marbles, which
  this does not read, are \<open>marbleY\<close> below.
\<close>

definition marbleAnimate :: "real \<Rightarrow> World \<Rightarrow> World" where
  "marbleAnimate timestamp w =
     (let start = (if marbleStartTimeRef w = 0 then timestamp else marbleStartTimeRef w);
          elapsed = timestamp - start;
          w1 = w\<lparr>marbleStartTimeRef := start\<rparr>;
          w2 = (if marbleWinnerDeclared w1 then w1
                else if elapsed \<ge> 3000 + 500
                  then snd (setTimeout RaceEnd 2000
                              (playDrawSound (w1\<lparr>marbleWinnerDeclared := True\<rparr>)))
                else w1)
      in if \<not> marbleWinnerDeclared w2 \<or> elapsed < 3000 + 3000 then
           let (handle, w3) = requestAnimationFrame MarbleAnimate w2
           in w3\<lparr>marbleRequestRef := handle\<rparr>
         else w2)"

text \<open>
  The race effect and its cleanup,
  \<^verbatim>\<open>() => { if (requestRef.current) cancelAnimationFrame(requestRef.current); }\<close>.
  \<open>mounted\<close> stands for the canvas, its container and its 2d context being there.
\<close>

definition marbleEffect :: "bool \<Rightarrow> string option \<Rightarrow> bool \<Rightarrow> World \<Rightarrow> bool \<times> World" where
  "marbleEffect running winnerName mounted w =
     (if \<not> running \<or> \<not> truthy winnerName \<or> \<not> mounted then (False, w)
      else
        let w1 = w\<lparr>marbleWinnerDeclared := False, marbleStartTimeRef := 0\<rparr>;
            (handle, w2) = requestAnimationFrame MarbleAnimate w1
        in (True, w2\<lparr>marbleRequestRef := handle\<rparr>))"

definition marbleCleanup :: "bool \<Rightarrow> World \<Rightarrow> World" where
  "marbleCleanup c w =
     (if c \<and> marbleRequestRef w \<noteq> 0 then cancelAnimationFrame (marbleRequestRef w) w else w)"

subsection \<open>The host's event loop\<close>

text \<open>What a timer callback does when it fires.\<close>

fun runTimer :: "Callback \<Rightarrow> World \<Rightarrow> World" where
  "runTimer (WheelSpinDone newTotal) w =
     complete ((playDrawSound w)\<lparr>wheelLastRotation := newTotal\<rparr>)"
| "runTimer CardPicking w = w\<lparr>cardStep := Picking\<rparr>"
| "runTimer CardRevealed w = (playDrawSound w)\<lparr>cardStep := Revealed\<rparr>"
| "runTimer CardEnd w = complete w"
| "runTimer RaceEnd w = complete w"
| "runTimer MarbleAnimate w = w"

text \<open>What a frame callback does when the frame with the given timestamp is drawn.\<close>

fun runFrame :: "real \<Rightarrow> Callback \<Rightarrow> World \<Rightarrow> World" where
  "runFrame timestamp MarbleAnimate w = marbleAnimate timestamp w"
| "runFrame timestamp cb w = w"

text \<open>
  A pending timer fires: it is taken off the list and its callback runs. A timer that
  was cleared in the meantime does nothing.
\<close>

definition fire :: "nat \<times> real \<times> Callback \<Rightarrow> World \<Rightarrow> World" where
  "fire t w =
     (if t \<in> set (timers w)
      then runTimer (snd (snd t)) (w\<lparr>timers := filter (\<lambda>u. fst u \<noteq> fst t) (timers w)\<rparr>)
      else w)"

text \<open>
  Time passes until \<open>t\<close>: the timers that are due by then fire, in the order of their due
  times.
\<close>

definition advanceTo :: "real \<Rightarrow> World \<Rightarrow> World" where
  "advanceTo t w =
     (let due = sort_key (\<lambda>u. fst (snd u)) (filter (\<lambda>u. fst (snd u) \<le> t) (timers w))
      in (fold fire due w)\<lparr>now := max (now w) t\<rparr>)"

text \<open>A frame is drawn at \<open>t\<close>: the frame callbacks requested so far run with that timestamp.\<close>

definition animationFrame :: "real \<Rightarrow> World \<Rightarrow> World" where
  "animationFrame t w =
     fold (\<lambda>f. runFrame t (snd f)) (frameRequests w) (w\<lparr>frameRequests := [], now := max (now w) t\<rparr>)"

datatype Event = Advance real | Frame real

fun runEvents :: "Event list \<Rightarrow> World \<Rightarrow> World" where
  "runEvents [] w = w"
| "runEvents (Advance t # es) w = runEvents es (advanceTo t w)"
| "runEvents (Frame t # es) w = runEvents es (animationFrame t w)"

text \<open>The host before a session: nothing is pending.\<close>

definition idleWorld :: World where
  "idleWorld = \<lparr>now = 0, timers = [], frameRequests = [], nextHandle = 1, completions = 0,
     soundsPlayed = 0, wheelRotation = 0, wheelLastRotation = 0, cardStep = Idle,
     marbleRequestRef = 0, marbleStartTimeRef = 0, marbleWinnerDeclared = False\<rparr>"

subsection \<open>Cancelled sessions\<close>

text \<open>
  A card draw for the winner \<open>A\<close> that is torn down 1000 ms after its start, and a
  marble race that is torn down at 4000 ms, after the frame at 3600 ms declared the
  winner.
\<close>

definition cardCancelled :: World where
  "cardCancelled = cardCleanup (advanceTo 1000 (cardEffect True (Some ''A'') idleWorld))"

definition marbleCancelled :: World where
  "marbleCancelled =
     (let (c, w1) = marbleEffect True (Some ''A'') True idleWorld;
          w2 = animationFrame 3600 (animationFrame 16 w1)
      in marbleCleanup c (advanceTo 4000 w2))"

section \<open>The shuffle of the group draw\<close>

text \<open>
  The comparator \<^verbatim>\<open>() => Math.random() - 0.5\<close> ignores its arguments: a call is positive
  when the value \<open>r\<close> of \<^verbatim>\<open>Math.random()\<close> exceeds one half. For a uniform random source
  the calls are independent fair coins (zero has probability 0).
\<close>

definition comparatorPositive :: "real \<Rightarrow> bool" where
  "comparatorPositive r = (r - 0.5 > 0)"

text \<open>
  The sort algorithm belongs to the JavaScript engine, not to this program, so it is a
  parameter: \<open>engine cs xs\<close> is the array the engine's sort leaves when the calls of the
  comparator come out as \<open>cs\<close> (\<open>True\<close> for positive). The field \<open>sortRandom\<close> of a host is
  \<open>engine cs\<close> for the coins of that call. For an engine that calls the comparator at most
  \<open>m\<close> times, the \<open>2 ^ m\<close> coin sequences of length \<open>m\<close> are equally likely;
  \<open>shuffleOutcomes\<close> lists the result for each of them and \<open>outcomeCount\<close> counts those
  that give the arrangement \<open>p\<close>, so the probability of \<open>p\<close> is
  \<open>outcomeCount engine m xs p / 2 ^ m\<close>.
\<close>

definition coinSequences :: "nat \<Rightarrow> bool list list" where
  "coinSequences m = List.n_lists m [False, True]"

definition shuffleOutcomes :: "(bool list \<Rightarrow> 'a list \<Rightarrow> 'a list) \<Rightarrow> nat \<Rightarrow> 'a list \<Rightarrow> 'a list list" where
  "shuffleOutcomes engine m xs = map (\<lambda>cs. engine cs xs) (coinSequences m)"

definition outcomeCount :: "(bool list \<Rightarrow> 'a list \<Rightarrow> 'a list) \<Rightarrow> nat \<Rightarrow> 'a list \<Rightarrow> 'a list \<Rightarrow> nat" where
  "outcomeCount engine m xs p = length (filter (\<lambda>ys. ys = p) (shuffleOutcomes engine m xs))"

text \<open>
  One engine, for illustration: insertion sort, as engines use it on short arrays. The
  sorted prefix is kept reversed; an element moves left while the comparator is
  positive.
\<close>

fun insertInto :: "'a \<Rightarrow> 'a list \<Rightarrow> bool list \<Rightarrow> 'a list \<times> bool list" where
  "insertInto element [] cs = ([element], cs)"
| "insertInto element (tmp # rest) [] = (element # tmp # rest, [])"
| "insertInto element (tmp # rest) (c # cs) =
     (if c then (let (r, cs') = insertInto element rest cs in (tmp # r, cs'))
      else (element # tmp # rest, cs))"

fun insertionSortFrom :: "'a list \<Rightarrow> 'a list \<Rightarrow> bool list \<Rightarrow> 'a list" where
  "insertionSortFrom pre [] cs = rev pre"
| "insertionSortFrom pre (element # rest) cs =
     (let (pre', cs') = insertInto element pre cs in insertionSortFrom pre' rest cs')"

definition insertionSort :: "bool list \<Rightarrow> 'a list \<Rightarrow> 'a list" where
  "insertionSort cs xs = insertionSortFrom [] xs cs"

section \<open>The lane races\<close>

subsection \<open>MarbleRace: durations and progress\<close>

text \<open>
  The fields of a marble carry the prefix \<open>m_\<close> where a duck has a field of the same
  name; the colour, which only the drawing reads, is left out. The random source is
  the sequence \<open>rnd\<close> of the values that successive calls of \<^verbatim>\<open>Math.random()\<close> return,
  and \<open>k\<close> counts the calls made so far.
\<close>

record Marble =
  m_name :: string
  m_x :: real
  m_y :: real
  duration :: real
  wobbleOffset :: real
  m_isWinner :: bool

definition BASE_DURATION :: real where
  "BASE_DURATION = 3000"

text \<open>
  \<^verbatim>\<open>names.map((name, i) => { ... })\<close> of the marble setup, from lane \<open>i\<close> on. A winner
  takes no random value for its duration, every marble takes one for its wobble offset.
\<close>

fun makeMarbles ::
  "string \<Rightarrow> real \<Rightarrow> real \<Rightarrow> real \<Rightarrow> (nat \<Rightarrow> real) \<Rightarrow> nat \<Rightarrow> nat \<Rightarrow> string list \<Rightarrow> Marble list" where
  "makeMarbles winnerName trackPadding laneWidth marbleRadius rnd i k [] = []"
| "makeMarbles winnerName trackPadding laneWidth marbleRadius rnd i k (name # rest) =
     (let isWinner = (name = winnerName);
          dur = (if isWinner then BASE_DURATION else BASE_DURATION + 500 + rnd k * 1500);
          k1 = (if isWinner then k else k + 1)
      in \<lparr>m_name = name,
           m_x = trackPadding + (real i * laneWidth) + (laneWidth / 2),
           m_y = marbleRadius,
           duration = dur,
           wobbleOffset = rnd k1 * 1000,
           m_isWinner = isWinner\<rparr>
         # makeMarbles winnerName trackPadding laneWidth marbleRadius rnd (i + 1) (k1 + 1) rest)"

definition marbleSetup :: "string list \<Rightarrow> string \<Rightarrow> real \<Rightarrow> (nat \<Rightarrow> real) \<Rightarrow> Marble list" where
  "marbleSetup nms winnerName width rnd =
     (let trackPadding = 40;
          marbleRadius = min 15 ((width - trackPadding * 2) / (real (length nms) * 2));
          totalLaneWidth = width - trackPadding * 2;
          laneWidth = totalLaneWidth / real (length nms)
      in makeMarbles winnerName trackPadding laneWidth marbleRadius rnd 0 0 nms)"

text \<open>
  The racing branch of \<^verbatim>\<open>animate\<close>, per marble:
  \<^verbatim>\<open>progress = Math.min(1, elapsed / m.duration)\<close>, the ease-in-out of it, and the
  position \<^verbatim>\<open>m.y = startY + (endY - startY) * ease\<close>. A marble has finished when
  \<^verbatim>\<open>progress >= 1\<close>.
\<close>

definition marbleProgress :: "real \<Rightarrow> Marble \<Rightarrow> real" where
  "marbleProgress elapsed m = min 1 (elapsed / duration m)"

definition marbleEase :: "real \<Rightarrow> real" where
  "marbleEase progress =
     (if progress < 0.5 then 2 * progress * progress else 1 - (- 2 * progress + 2) ^ 2 / 2)"

definition marbleY :: "real \<Rightarrow> real \<Rightarrow> real \<Rightarrow> Marble \<Rightarrow> real" where
  "marbleY startY endY elapsed m = startY + (endY - startY) * marbleEase (marbleProgress elapsed m)"

definition marbleFinished :: "real \<Rightarrow> Marble \<Rightarrow> bool" where
  "marbleFinished elapsed m = (marbleProgress elapsed m \<ge> 1)"

subsection \<open>DuckRace\<close>

record Duck =
  d_name :: string
  d_x :: real
  d_y :: real
  baseSpeed :: real
  d_isWinner :: bool

definition FINISH_BUFFER :: real where
  "FINISH_BUFFER = 40"

definition START_X :: real where
  "START_X = 50"

definition MIN_SPEED :: real where
  "MIN_SPEED = 120"

definition MAX_SPEED :: real where
  "MAX_SPEED = 200"

definition WINNER_BOOST :: real where
  "WINNER_BOOST = 115 / 100"

text \<open>
  The state of a race session: the ducks, the finish line, \<^verbatim>\<open>startTimeRef.current\<close>,
  and the variables \<^verbatim>\<open>lastTime\<close> and \<^verbatim>\<open>winnerDeclared\<close> of the effect.
  \<open>raceEndTimers\<close> counts the calls \<^verbatim>\<open>setTimeout(onRaceEnd, 2000)\<close>, and
  \<open>frameRequested\<close> tells whether the last frame asked for another one.
\<close>

record DuckRace =
  ducks :: "Duck list"
  finishLineX :: real
  duckStartTimeRef :: real
  lastTime :: real
  duckWinnerDeclared :: bool
  raceEndTimers :: nat
  frameRequested :: bool

text \<open>
  The ducks as \<^verbatim>\<open>names.map\<close> creates them: the duck in lane \<open>i\<close> takes the \<open>i\<close>-th
  random value for its base speed.
\<close>

definition initialDucks :: "string list \<Rightarrow> string \<Rightarrow> real \<Rightarrow> (nat \<Rightarrow> real) \<Rightarrow> Duck list" where
  "initialDucks nms winnerName laneHeight rnd =
     map (\<lambda>(i, name).
            \<lparr>d_name = name, d_x = START_X, d_y = laneHeight * (real i + 1),
             baseSpeed = rnd i * (MAX_SPEED - MIN_SPEED) + MIN_SPEED,
             d_isWinner = (name = winnerName)\<rparr>)
         (enumerate 0 nms)"

text \<open>
  \<^verbatim>\<open>maxNonWinnerSpeed\<close>, which starts at \<^verbatim>\<open>MIN_SPEED\<close> and is raised by every duck that
  is not the winner.
\<close>

definition maxNonWinnerSpeed :: "Duck list \<Rightarrow> real" where
  "maxNonWinnerSpeed ds =
     fold (\<lambda>d m. if \<not> d_isWinner d then max m (baseSpeed d) else m) ds MIN_SPEED"

definition duckSetup :: "string list \<Rightarrow> string \<Rightarrow> real \<Rightarrow> (nat \<Rightarrow> real) \<Rightarrow> DuckRace" where
  "duckSetup nms winnerName width rnd =
     (let height = min (width * 0.8) 600;
          finish = width * 0.95 - FINISH_BUFFER;
          numDucks = length nms;
          laneHeight = height / (real numDucks + 1);
          ds = initialDucks nms winnerName laneHeight rnd;
          winnerSpeed = maxNonWinnerSpeed ds * WINNER_BOOST
      in \<lparr>ducks = map (\<lambda>d. if d_isWinner d then d\<lparr>baseSpeed := winnerSpeed\<rparr> else d) ds,
           finishLineX = finish, duckStartTimeRef = 0, lastTime = 0,
           duckWinnerDeclared = False, raceEndTimers = 0, frameRequested = True\<rparr>)"

text \<open>
  One duck in one frame:
  \<^verbatim>\<open>
  if (duck.x < finishLineX) {
    const wobble = Math.sin(timestamp / 1000 + duck.y / 5) * 0.15;
    const currentSpeed = duck.baseSpeed * (1 + wobble);
    duck.x += currentSpeed * deltaTime;
    if (duck.x >= finishLineX) duck.x = finishLineX;
  }
  \<close>
\<close>

definition moveDuck :: "real \<Rightarrow> real \<Rightarrow> real \<Rightarrow> Duck \<Rightarrow> Duck" where
  "moveDuck timestamp deltaTime finish duck =
     (if d_x duck < finish then
        let wobble = sin (timestamp / 1000 + d_y duck / 5) * 0.15;
            currentSpeed = baseSpeed duck * (1 + wobble);
            x1 = d_x duck + currentSpeed * deltaTime
        in duck\<lparr>d_x := (if x1 \<ge> finish then finish else x1)\<rparr>
      else duck)"

text \<open>\<^verbatim>\<open>animate(timestamp)\<close> of the duck race, without the drawing.\<close>

definition duckAnimate :: "real \<Rightarrow> DuckRace \<Rightarrow> DuckRace" where
  "duckAnimate timestamp r =
     (let first = (duckStartTimeRef r = 0);
          start = (if first then timestamp else duckStartTimeRef r);
          last = (if first then timestamp else lastTime r);
          deltaTime = (timestamp - last) / 1000;
          r1 = r\<lparr>duckStartTimeRef := start, lastTime := timestamp\<rparr>
      in if duckWinnerDeclared r1 then r1\<lparr>frameRequested := False\<rparr>
         else
           let ds = map (moveDuck timestamp deltaTime (finishLineX r1)) (ducks r1);
               winnerCrossed = list_ex (\<lambda>d. d_isWinner d \<and> d_x d \<ge> finishLineX r1) ds;
               elapsed = (timestamp - start) / 1000;
               declare = (winnerCrossed \<and> elapsed \<ge> 3)
           in r1\<lparr>ducks := ds,
                 duckWinnerDeclared := declare,
                 raceEndTimers := (if declare then raceEndTimers r1 + 1 else raceEndTimers r1),
                 frameRequested := True\<rparr>)"

text \<open>
  A race of the six default names with \<open>John\<close> as the designated winner, on a canvas
  700 pixels wide, every random value one half; the first frame is drawn at 4040 ms and
  the second at 7400 ms.
\<close>

definition defaultNames :: "string list" where
  "defaultNames = [''John'', ''Jane'', ''Alice'', ''Bob'', ''Charlie'', ''Diana'']"

definition duckRaceStart :: DuckRace where
  "duckRaceStart = duckSetup defaultNames ''John'' 700 (\<lambda>i. 1 / 2)"

definition duckRaceFrames :: DuckRace where
  "duckRaceFrames = duckAnimate 7400 (duckAnimate 4040 duckRaceStart)"

section \<open>Properties of the wheel\<close>

subsection \<open>Rounding to a double\<close>

text \<open>The binade brackets the number, so rounding moves it by at most \<open>|x| / 2^53\<close>.\<close>

lemma binadeUp_bounds:
  "1 \<le> x \<Longrightarrow> 2 powi binadeUp x \<le> x \<and> x < 2 powi (binadeUp x + 1)"
proof (induction x rule: binadeUp.induct)
  case (1 x)
  show ?case
  proof (cases "x < 2")
    case True
    then show ?thesis using "1.prems" by (simp add: binadeUp.simps)
  next
    case False
    then have h: "1 \<le> x / 2" by simp
    have b: "binadeUp x = binadeUp (x / 2) + 1" using False by (subst binadeUp.simps) simp
    have ih: "2 powi binadeUp (x / 2) \<le> x / 2 \<and> x / 2 < 2 powi (binadeUp (x / 2) + 1)"
      using "1.IH" [OF False h] .
    have p: "(2::real) powi (k + 1) = 2 * 2 powi k" for k :: int
      by (simp add: power_int_add)
    show ?thesis unfolding b using ih p [of "binadeUp (x / 2)"] p [of "binadeUp (x / 2) + 1"]
      by simp
  qed
qed

lemma binadeDown_bounds:
  "0 < x \<Longrightarrow> x < 1 \<Longrightarrow> 2 powi binadeDown x \<le> x \<and> x < 2 powi (binadeDown x + 1)"
proof (induction x rule: binadeDown.induct)
  case (1 x)
  have c: "\<not> (1 \<le> x \<or> x \<le> 0)" using "1.prems" by simp
  have b: "binadeDown x = binadeDown (2 * x) - 1" using c by (subst binadeDown.simps) simp
  have p: "(2::real) powi (k + 1) = 2 * 2 powi k" for k :: int
    by (simp add: power_int_add)
  show ?case
  proof (cases "2 * x < 1")
    case True
    have ih: "2 powi binadeDown (2 * x) \<le> 2 * x \<and> 2 * x < 2 powi (binadeDown (2 * x) + 1)"
      using "1.IH" [OF c _ True] "1.prems" by simp
    show ?thesis unfolding b using ih p [of "binadeDown (2 * x) - 1"] p [of "binadeDown (2 * x)"]
      by simp
  next
    case False
    then have z: "binadeDown (2 * x) = 0" by (subst binadeDown.simps) simp
    show ?thesis unfolding b z using False "1.prems" by (simp add: power_int_minus)
  qed
qed

lemma binade_bounds:
  assumes "x \<noteq> 0"
  shows "2 powi binade x \<le> \<bar>x\<bar>" and "\<bar>x\<bar> < 2 powi (binade x + 1)"
proof -
  have "2 powi binade x \<le> \<bar>x\<bar> \<and> \<bar>x\<bar> < 2 powi (binade x + 1)"
  proof (cases "1 \<le> \<bar>x\<bar>")
    case True
    then show ?thesis unfolding binade_def using binadeUp_bounds [of "\<bar>x\<bar>"] by simp
  next
    case False
    then show ?thesis unfolding binade_def using binadeDown_bounds [of "\<bar>x\<bar>"] assms by simp
  qed
  then show "2 powi binade x \<le> \<bar>x\<bar>" and "\<bar>x\<bar> < 2 powi (binade x + 1)" by simp_all
qed

lemma roundEven_error: "\<bar>of_int (roundEven q) - q\<bar> \<le> 1 / 2"
  unfolding roundEven_def Let_def by (auto; linarith)

lemma roundDouble_error: "\<bar>roundDouble x - x\<bar> \<le> \<bar>x\<bar> / 2 ^ 53"
proof (cases "x = 0")
  case True
  then show ?thesis by (simp add: roundDouble_def)
next
  case False
  have u: "0 < ulp x" unfolding ulp_def by simp
  have "\<bar>of_int (roundEven (x / ulp x)) - x / ulp x\<bar> \<le> 1 / 2"
    by (rule roundEven_error)
  then have "\<bar>of_int (roundEven (x / ulp x)) - x / ulp x\<bar> * ulp x \<le> 1 / 2 * ulp x"
    using u by (simp add: mult_right_mono)
  moreover have "\<bar>of_int (roundEven (x / ulp x)) - x / ulp x\<bar> * ulp x
      = \<bar>of_int (roundEven (x / ulp x)) * ulp x - x\<bar>"
  proof -
    have "(of_int (roundEven (x / ulp x)) - x / ulp x) * ulp x
        = of_int (roundEven (x / ulp x)) * ulp x - x"
      using u by (simp add: field_simps)
    then have "\<bar>of_int (roundEven (x / ulp x)) * ulp x - x\<bar>
        = \<bar>of_int (roundEven (x / ulp x)) - x / ulp x\<bar> * \<bar>ulp x\<bar>"
      by (metis abs_mult)
    then show ?thesis using u by simp
  qed
  ultimately have e: "\<bar>roundDouble x - x\<bar> \<le> ulp x / 2"
    using False by (simp add: roundDouble_def)
  have "ulp x = 2 powi binade x / 2 ^ 52"
    unfolding ulp_def by (simp add: power_int_diff)
  then have "ulp x \<le> \<bar>x\<bar> / 2 ^ 52"
    using binade_bounds(1) [OF False] by (simp add: divide_right_mono)
  then have "ulp x / 2 \<le> \<bar>x\<bar> / 2 ^ 53" by simp
  then show ?thesis using e by linarith
qed

lemma unitRoundoff_bounds: "0 < unitRoundoff" "unitRoundoff \<le> 1 / 1000000"
  by (simp_all add: unitRoundoff_def)

lemma roundDouble_relative: "\<bar>roundDouble x - x\<bar> \<le> \<bar>x\<bar> * unitRoundoff"
  using roundDouble_error [of x] by (simp add: unitRoundoff_def)

lemma roundDouble_absolute:
  assumes "\<bar>x\<bar> \<le> B"
  shows "\<bar>roundDouble x - x\<bar> \<le> B * unitRoundoff"
proof -
  have "\<bar>x\<bar> * unitRoundoff \<le> B * unitRoundoff"
    using assms unitRoundoff_bounds(1) by (simp add: mult_right_mono)
  then show ?thesis using roundDouble_relative [of x] by linarith
qed

subsection \<open>The remainder and the pointer\<close>

lemma js_rem_360_shift: "\<exists>k::int. js_rem a 360 = a - 360 * of_int k"
  unfolding js_rem_def by blast

lemma js_rem_360_nonneg:
  assumes "0 \<le> a"
  shows "0 \<le> js_rem a 360 \<and> js_rem a 360 < 360"
proof -
  have r: "js_rem a 360 = a - 360 * of_int \<lfloor>a / 360\<rfloor>"
    unfolding js_rem_def using assms by simp
  have "of_int \<lfloor>a / 360\<rfloor> \<le> a / 360" and "a / 360 < of_int \<lfloor>a / 360\<rfloor> + 1"
    by linarith+
  then have "360 * of_int \<lfloor>a / 360\<rfloor> \<le> a" and "a < 360 * of_int \<lfloor>a / 360\<rfloor> + 360"
    by linarith+
  then show ?thesis unfolding r by linarith
qed

lemma js_rem_360_abs: "\<bar>js_rem a 360\<bar> < 360"
proof (cases "0 \<le> a")
  case True
  then show ?thesis using js_rem_360_nonneg [of a] by simp
next
  case False
  then have r: "js_rem a 360 = a - 360 * of_int \<lceil>a / 360\<rceil>"
    unfolding js_rem_def by (simp add: field_simps)
  have "a / 360 \<le> of_int \<lceil>a / 360\<rceil>" and "of_int \<lceil>a / 360\<rceil> < a / 360 + 1"
    by linarith+
  then have "a \<le> 360 * of_int \<lceil>a / 360\<rceil>" and "360 * of_int \<lceil>a / 360\<rceil> < a + 360"
    by linarith+
  then show ?thesis unfolding r by linarith
qed

text \<open>
  The wheel angle \<open>pointerAngle rotation\<close> is shown in the direction of the pointer, a
  whole number of turns apart.
\<close>

lemma pointerAngle_shown:
  "shownDirection rotation (sliceDirection (pointerAngle rotation))
     = pointerDirection - 360 * of_int \<lfloor>rotation / 360\<rfloor>"
  unfolding shownDirection_def sliceDirection_def pointerDirection_def pointerAngle_def by simp

lemma pointerAngle_unique:
  assumes "rotation = y + 360 * of_int k" and "0 \<le> y" and "y < 360"
  shows "pointerAngle rotation = y"
proof -
  have "rotation / 360 = y / 360 + of_int k" using assms(1) by simp
  moreover have "0 \<le> y / 360" and "y / 360 < 1" using assms(2) assms(3) by simp_all
  ultimately have "\<lfloor>rotation / 360\<rfloor> = k" by linarith
  then show ?thesis unfolding pointerAngle_def using assms(1) by simp
qed

lemma full_spins: "jsMul 360 fullSpins = 1800"
  by (simp add: jsMul_def fullSpins_def roundDouble_def ulp_def binade_def binadeUp.simps
      roundEven_def Let_def)

subsection \<open>The angles of the slices\<close>

text \<open>
  The computed segment angle is within rounding of \<open>360 / n\<close>, and the corners and the
  centre of the winner's slice are within rounding of \<open>w * s\<close>, \<open>(w + 1) * s\<close> and
  \<open>(w + 1/2) * s\<close>. The label angle of a slice is computed as \<open>Ac\<close> is.
\<close>

lemma segment_bounds:
  assumes "1 \<le> n" and "w < n"
  defines "s \<equiv> segmentAngle n" and "P \<equiv> real w * segmentAngle n"
  shows "\<bar>s - 360 / real n\<bar> \<le> 360 * unitRoundoff"
    and "\<bar>real n * s - 360\<bar> \<le> 360 * unitRoundoff"
    and "0 \<le> s" and "0 \<le> P" and "P + s \<le> real n * s"
proof -
  let ?x = "360 / real n"
  let ?U = unitRoundoff
  have n0: "0 < real n" using assms(1) by simp
  have x: "0 < ?x" "?x \<le> 360" using assms(1) n0 by (simp_all add: field_simps)
  have "\<bar>s - ?x\<bar> \<le> \<bar>?x\<bar> * ?U"
    unfolding s_def segmentAngle_def jsDiv_def by (rule roundDouble_relative)
  then have e: "\<bar>s - ?x\<bar> \<le> ?x * ?U" using x(1) by simp
  have u0: "0 \<le> ?U" using unitRoundoff_bounds(1) by simp
  have xu: "?x * ?U \<le> 360 * ?U"
    using x(2) u0 by (rule mult_right_mono)
  show "\<bar>s - 360 / real n\<bar> \<le> 360 * ?U" using e xu by linarith
  have nn: "0 \<le> real n" by simp
  have "real n * \<bar>s - ?x\<bar> \<le> real n * (?x * ?U)"
    using e nn by (rule mult_left_mono)
  moreover have "real n * \<bar>s - ?x\<bar> = \<bar>real n * s - 360\<bar>"
  proof -
    have "real n * (s - ?x) = real n * s - 360" using n0 by (simp add: field_simps)
    then have "\<bar>real n * s - 360\<bar> = \<bar>real n\<bar> * \<bar>s - ?x\<bar>" by (metis abs_mult)
    then show ?thesis using n0 by simp
  qed
  moreover have "real n * (?x * ?U) = 360 * ?U" using n0 by simp
  ultimately show "\<bar>real n * s - 360\<bar> \<le> 360 * ?U" by simp
  have "?x * ?U \<le> ?x * 1"
    using x(1) unitRoundoff_bounds by (intro mult_left_mono) simp_all
  then show s0: "0 \<le> s" using e by linarith
  show "0 \<le> P" unfolding P_def using s0 s_def by simp
  have "real (w + 1) \<le> real n" using assms(2) by simp
  then have "real (w + 1) * s \<le> real n * s" using s0 by (rule mult_right_mono)
  then show "P + s \<le> real n * s" unfolding P_def s_def by (simp add: algebra_simps)
qed

lemma angle_bounds:
  assumes "1 \<le> n" and "w < n"
  defines "s \<equiv> segmentAngle n" and "P \<equiv> real w * segmentAngle n"
  shows "\<bar>startAngle n w - P\<bar> \<le> 361 * unitRoundoff"
    and "\<bar>endAngle n w - (P + s)\<bar> \<le> 361 * unitRoundoff"
    and "\<bar>Ac n w - (P + s / 2)\<bar> \<le> 903 * unitRoundoff"
    and "textAngle n w = Ac n w"
proof -
  let ?U = unitRoundoff
  note u = unitRoundoff_bounds
  note b = segment_bounds [OF assms(1) assms(2), folded s_def P_def]
  have q: "real n * s \<le> 361" using b(2) u by linarith
  have p: "\<bar>P\<bar> \<le> 361" "\<bar>P + s\<bar> \<le> 361" "\<bar>s / 2\<bar> \<le> 181"
    using b(3) b(4) b(5) q by linarith+
  have st: "\<bar>startAngle n w - P\<bar> \<le> 361 * ?U"
    unfolding startAngle_def jsMul_def using roundDouble_absolute [OF p(1)] by (simp add: P_def)
  then show "\<bar>startAngle n w - P\<bar> \<le> 361 * ?U" .
  have "real (w + 1) * segmentAngle n = P + s" unfolding P_def s_def by (simp add: algebra_simps)
  then show "\<bar>endAngle n w - (P + s)\<bar> \<le> 361 * ?U"
    unfolding endAngle_def jsMul_def using roundDouble_absolute [OF p(2)] by simp
  have h: "\<bar>jsDiv s 2 - s / 2\<bar> \<le> 181 * ?U"
    unfolding jsDiv_def using roundDouble_absolute [OF p(3)] by simp
  have sum: "\<bar>startAngle n w + jsDiv s 2\<bar> \<le> 361"
    using st h b(3) b(4) b(5) b(2) u by linarith
  have "\<bar>jsAdd (startAngle n w) (jsDiv s 2) - (startAngle n w + jsDiv s 2)\<bar> \<le> 361 * ?U"
    unfolding jsAdd_def using roundDouble_absolute [OF sum] by simp
  moreover have a: "Ac n w = jsAdd (startAngle n w) (jsDiv s 2)"
    unfolding Ac_def startAngle_def s_def by simp
  ultimately show "\<bar>Ac n w - (P + s / 2)\<bar> \<le> 903 * ?U"
    using st h by linarith
  show "textAngle n w = Ac n w"
    unfolding textAngle_def a s_def by simp
qed

subsection \<open>A spin\<close>

text \<open>
  Every step of the spin rounds once; the remainders are exact. The errors add up to
  at most \<open>(lastRotation + 8000) * 2^-53\<close>.
\<close>

lemma spin_chain:
  assumes "0 \<le> lastRotation" and "\<bar>Ac n w\<bar> \<le> 362"
  shows "\<exists>(k::int) e. newTotalRotation n w lastRotation = Ac n w + 360 * of_int k + e
            \<and> \<bar>e\<bar> \<le> (lastRotation + 8000) * unitRoundoff"
proof -
  let ?U = unitRoundoff
  note u = unitRoundoff_bounds
  define L where "L = Ac n w"
  define V where "V = js_rem lastRotation 360"
  define t1 where "t1 = jsSub L V"
  define t2 where "t2 = jsAdd t1 360"
  define d where "d = js_rem t2 360"
  define m where "m = (if d < 1 then jsAdd d 360 else d)"
  define rd where "rd = jsAdd m (jsMul 360 fullSpins)"
  have new: "newTotalRotation n w lastRotation = jsAdd lastRotation rd"
    unfolding newTotalRotation_def minRotationDelta_def Let_def rd_def m_def d_def t2_def t1_def
      V_def L_def by simp
  obtain i :: int where i: "V = lastRotation - 360 * of_int i"
    unfolding V_def using js_rem_360_shift by blast
  have v: "0 \<le> V" "V < 360"
    unfolding V_def using js_rem_360_nonneg [OF assms(1)] by simp_all
  have l: "\<bar>L\<bar> \<le> 362" unfolding L_def by (rule assms(2))
  have "\<bar>L - V\<bar> \<le> 722" using l v by linarith
  then have e1: "\<bar>t1 - (L - V)\<bar> \<le> 722 * ?U"
    unfolding t1_def jsSub_def by (rule roundDouble_absolute)
  have "\<bar>t1 + 360\<bar> \<le> 1083" using e1 l v u by linarith
  then have e2: "\<bar>t2 - (t1 + 360)\<bar> \<le> 1083 * ?U"
    unfolding t2_def jsAdd_def by (rule roundDouble_absolute)
  obtain j :: int where j: "d = t2 - 360 * of_int j"
    unfolding d_def using js_rem_360_shift by blast
  have dd: "\<bar>d\<bar> < 360" unfolding d_def by (rule js_rem_360_abs)
  have "\<exists>b::int. \<bar>m - (d + 360 * of_int b)\<bar> \<le> 720 * ?U"
  proof (cases "d < 1")
    case True
    have "\<bar>d + 360\<bar> \<le> 720" using dd by linarith
    then have "\<bar>jsAdd d 360 - (d + 360)\<bar> \<le> 720 * ?U"
      unfolding jsAdd_def by (rule roundDouble_absolute)
    then have "\<bar>m - (d + 360 * of_int 1)\<bar> \<le> 720 * ?U" unfolding m_def using True by simp
    then show ?thesis by blast
  next
    case False
    then have "\<bar>m - (d + 360 * of_int 0)\<bar> \<le> 720 * ?U" unfolding m_def using u by simp
    then show ?thesis by blast
  qed
  then obtain b :: int where e3: "\<bar>m - (d + 360 * of_int b)\<bar> \<le> 720 * ?U" by blast
  have mm: "\<bar>m\<bar> \<le> 721"
  proof (cases "d < 1")
    case True
    have "\<bar>d + 360\<bar> \<le> 720" using dd by linarith
    then have "\<bar>jsAdd d 360 - (d + 360)\<bar> \<le> 720 * ?U"
      unfolding jsAdd_def by (rule roundDouble_absolute)
    then show ?thesis unfolding m_def using True dd u by (simp; linarith)
  next
    case False
    then show ?thesis unfolding m_def using dd by simp
  qed
  have rd': "rd = roundDouble (m + 1800)" unfolding rd_def jsAdd_def full_spins by simp
  have "\<bar>m + 1800\<bar> \<le> 2521" using mm by linarith
  then have e4: "\<bar>rd - (m + 1800)\<bar> \<le> 2521 * ?U"
    unfolding rd' by (rule roundDouble_absolute)
  have "\<bar>lastRotation + rd\<bar> \<le> lastRotation + 2522" using e4 mm assms(1) u by linarith
  then have "\<bar>jsAdd lastRotation rd - (lastRotation + rd)\<bar> \<le> (lastRotation + 2522) * ?U"
    unfolding jsAdd_def by (rule roundDouble_absolute)
  then have e5: "\<bar>newTotalRotation n w lastRotation - (lastRotation + rd)\<bar>
      \<le> lastRotation * ?U + 2522 * ?U"
    unfolding new by (simp add: algebra_simps)
  define k where "k = i - j + b + 6"
  define e where "e = newTotalRotation n w lastRotation - L - 360 * of_int k"
  have ke: "(of_int k :: real) = of_int i - of_int j + of_int b + 6" unfolding k_def by simp
  define a1 where "a1 = t1 - (L - V)"
  define a2 where "a2 = t2 - (t1 + 360)"
  define a3 where "a3 = m - (d + 360 * of_int b)"
  define a4 where "a4 = rd - (m + 1800)"
  define a5 where "a5 = newTotalRotation n w lastRotation - (lastRotation + rd)"
  define lu where "lu = lastRotation * ?U"
  have split: "e = a1 + a2 + a3 + a4 + a5"
    unfolding e_def ke a1_def a2_def a3_def a4_def a5_def i j by simp
  have "\<bar>a1 + a2 + a3 + a4 + a5\<bar> \<le> \<bar>a1\<bar> + \<bar>a2\<bar> + \<bar>a3\<bar> + \<bar>a4\<bar> + \<bar>a5\<bar>"
    by linarith
  moreover have "\<bar>a1\<bar> \<le> 722 * ?U" "\<bar>a2\<bar> \<le> 1083 * ?U" "\<bar>a3\<bar> \<le> 720 * ?U"
      "\<bar>a4\<bar> \<le> 2521 * ?U" "\<bar>a5\<bar> \<le> lu + 2522 * ?U"
    unfolding a1_def a2_def a3_def a4_def a5_def lu_def using e1 e2 e3 e4 e5 by simp_all
  ultimately have "\<bar>e\<bar> \<le> lu + 8000 * ?U"
    unfolding split using u(1) by linarith
  then have "\<bar>e\<bar> \<le> (lastRotation + 8000) * ?U"
    unfolding lu_def by (simp add: algebra_simps)
  moreover have "newTotalRotation n w lastRotation = Ac n w + 360 * of_int k + e"
    unfolding e_def L_def by simp
  ultimately show ?thesis by blast
qed

text \<open>
  C1, amended. For a wheel of \<open>n \<ge> 1\<close> segments, a winner index below \<open>n\<close> and a
  non-negative accumulated rotation, the rotation the spin ends at is congruent to the
  centre angle \<open>Ac\<close> of the winner's segment modulo 360 up to the rounding of the
  arithmetic: it differs from \<open>Ac\<close> plus a whole number of turns by at most
  \<open>(lastRotation + 8000) * 2^-53\<close> degrees. \<open>Ac\<close> is the angle at which the drawing puts the
  label of the winner's slice, so the drawing shows that label within this distance of
  the direction of the pointer. As long as \<open>n * (lastRotation + 8000) \<le> 2^52\<close>, the wheel
  angle under the pointer lies between the start and the end angle of the winner's
  slice, within the same distance of its label angle.
\<close>

theorem C1_wheel_rests_on_winner_within_rounding:
  assumes "1 \<le> n" and "w < n" and "0 \<le> lastRotation"
  shows "(\<exists>k::int. \<bar>newTotalRotation n w lastRotation - (Ac n w + 360 * of_int k)\<bar>
                  \<le> (lastRotation + 8000) * unitRoundoff)
       \<and> textAngle n w = Ac n w
       \<and> (\<exists>k::int. \<bar>shownDirection (newTotalRotation n w lastRotation)
                         (sliceDirection (textAngle n w))
                       - (pointerDirection + 360 * of_int k)\<bar>
                  \<le> (lastRotation + 8000) * unitRoundoff)
       \<and> (real n * (lastRotation + 8000) \<le> 2 ^ 52 \<longrightarrow>
             underPointer n (newTotalRotation n w lastRotation) w
           \<and> \<bar>pointerAngle (newTotalRotation n w lastRotation) - textAngle n w\<bar>
               \<le> (lastRotation + 8000) * unitRoundoff)"
proof -
  let ?U = unitRoundoff
  let ?new = "newTotalRotation n w lastRotation"
  note u = unitRoundoff_bounds
  define s where "s = segmentAngle n"
  define P where "P = real w * segmentAngle n"
  define Q where "Q = real n * s"
  define x where "x = 360 / real n"
  define eps where "eps = (lastRotation + 8000) * ?U"
  note b = segment_bounds [OF assms(1) assms(2), folded s_def P_def, folded Q_def x_def]
  note a = angle_bounds [OF assms(1) assms(2), folded s_def P_def]
  have ac: "\<bar>Ac n w\<bar> \<le> 362" using a(3) b u by linarith
  obtain k :: int and e where ke: "?new = Ac n w + 360 * of_int k + e" "\<bar>e\<bar> \<le> eps"
    using spin_chain [OF assms(3) ac] unfolding eps_def by blast
  have "\<bar>?new - (Ac n w + 360 * of_int k)\<bar> \<le> eps" using ke by simp
  then have first: "\<exists>k::int. \<bar>?new - (Ac n w + 360 * of_int k)\<bar> \<le> eps" by blast
  have "\<bar>shownDirection ?new (sliceDirection (textAngle n w))
          - (pointerDirection + 360 * of_int (- k))\<bar> \<le> eps"
    unfolding shownDirection_def sliceDirection_def pointerDirection_def a(4)
    using ke by simp
  then have shown: "\<exists>k::int. \<bar>shownDirection ?new (sliceDirection (textAngle n w))
          - (pointerDirection + 360 * of_int k)\<bar> \<le> eps" by blast
  have second: "real n * (lastRotation + 8000) \<le> 2 ^ 52 \<longrightarrow>
      underPointer n ?new w \<and> \<bar>pointerAngle ?new - textAngle n w\<bar> \<le> eps"
  proof
    assume h: "real n * (lastRotation + 8000) \<le> 2 ^ 52"
    have n0: "0 < real n" using assms(1) by simp
    have "0 \<le> real n * lastRotation" using assms(3) by simp
    then have hn: "real n * 8000 \<le> 2 ^ 52" using h by (simp add: algebra_simps)
    have "5760000 * ?U * real n \<le> 360"
      using hn by (simp add: unitRoundoff_def)
    then have x1: "5760000 * ?U \<le> x"
      unfolding x_def using n0 by (simp add: pos_le_divide_eq)
    have "eps * real n = real n * (lastRotation + 8000) / 2 ^ 53"
      unfolding eps_def unitRoundoff_def by simp
    also have "\<dots> \<le> 2 ^ 52 / 2 ^ 53" using h by (rule divide_right_mono) simp
    finally have "eps * real n \<le> 1 / 2" by simp
    then have "eps \<le> (1 / 2) / real n" using n0 by (simp add: pos_le_divide_eq)
    moreover have "(1 / 2) / real n = x / 720" unfolding x_def by simp
    ultimately have x2: "eps \<le> x / 720" by simp
    define y where "y = Ac n w + e"
    have y0: "0 \<le> y" unfolding y_def using a(3) b ke(2) x1 x2 u(1) by linarith
    have y1: "y < 360" unfolding y_def using a(3) b ke(2) x1 x2 u(1) by linarith
    have "?new = y + 360 * of_int k" unfolding y_def using ke(1) by simp
    then have p: "pointerAngle ?new = y" using y0 y1 by (rule pointerAngle_unique)
    have lo: "startAngle n w \<le> y" unfolding y_def using a(1) a(3) b ke(2) x1 x2 u(1) by linarith
    have hi: "y \<le> endAngle n w" unfolding y_def using a(2) a(3) b ke(2) x1 x2 u(1) by linarith
    have "\<bar>y - textAngle n w\<bar> \<le> eps" unfolding y_def a(4) using ke(2) by simp
    then show "underPointer n ?new w \<and> \<bar>pointerAngle ?new - textAngle n w\<bar> \<le> eps"
      unfolding underPointer_def p using lo hi by simp
  qed
  show ?thesis using first a(4) shown second unfolding eps_def by blast
qed

subsection \<open>Spins in numbers\<close>

lemmas double_eval = roundDouble_def ulp_def binade_def binadeUp.simps binadeDown.simps
  roundEven_def Let_def jsAdd_def jsSub_def jsMul_def jsDiv_def js_rem_def

lemma first_spin_of_eleven:
  "segmentAngle 11 = 4605954164356189 / 140737488355328"
  "Ac 11 0 = 4605954164356189 / 281474976710656"
  "minRotationDelta 11 0 0 = 4605954164356192 / 281474976710656"
  "newTotalRotation 11 0 0 = 3994225876902633 / 2199023255552"
proof -
  show s: "segmentAngle 11 = 4605954164356189 / 140737488355328"
    by (simp add: segmentAngle_def double_eval)
  show a: "Ac 11 0 = 4605954164356189 / 281474976710656"
    by (simp add: Ac_def s double_eval)
  show m: "minRotationDelta 11 0 0 = 4605954164356192 / 281474976710656"
    by (simp add: minRotationDelta_def a double_eval)
  show "newTotalRotation 11 0 0 = 3994225876902633 / 2199023255552"
    by (simp add: newTotalRotation_def m full_spins) (simp add: double_eval)
qed

text \<open>
  The first spin of a wheel of eleven names to the winner 0: the rotation it ends at is
  not congruent to \<open>Ac\<close> modulo 360. The remainder of the difference is
  \<open>35 * 2^-48\<close>; computed in doubles, as \<^verbatim>\<open>(rotation - Ac) % 360\<close>, it is \<open>2^-42\<close>.
\<close>

theorem C1_exact_congruence_fails:
  "js_rem (newTotalRotation 11 0 0 - Ac 11 0) 360 = 35 / 281474976710656
   \<and> js_rem (jsSub (newTotalRotation 11 0 0) (Ac 11 0)) 360 = 1 / 4398046511104
   \<and> \<not> (\<exists>k::int. newTotalRotation 11 0 0 = Ac 11 0 + 360 * of_int k)"
proof -
  have r: "js_rem (newTotalRotation 11 0 0 - Ac 11 0) 360 = 35 / 281474976710656"
    unfolding first_spin_of_eleven by (simp add: js_rem_def)
  have d: "js_rem (jsSub (newTotalRotation 11 0 0) (Ac 11 0)) 360 = 1 / 4398046511104"
    unfolding first_spin_of_eleven by (simp add: double_eval)
  have "\<not> (\<exists>k::int. newTotalRotation 11 0 0 = Ac 11 0 + 360 * of_int k)"
  proof
    assume "\<exists>k::int. newTotalRotation 11 0 0 = Ac 11 0 + 360 * of_int k"
    then obtain k :: int where "newTotalRotation 11 0 0 = Ac 11 0 + 360 * of_int k" by blast
    then have "(of_int k :: real) = (3994225876902633 / 2199023255552
        - 4605954164356189 / 281474976710656) / 360"
      unfolding first_spin_of_eleven by simp
    then have "(5::real) < of_int k" and "(of_int k :: real) < 6" by simp_all
    then have "5 < k" and "k < 6" by linarith+
    then show False by simp
  qed
  then show ?thesis using r d by blast
qed

text \<open>
  A wheel of seven names after the spins to 1 and to 4, which leave the rotation
  3831.4285714285716: the spin to 0 ends at 5785.714285714286, and
  \<^verbatim>\<open>(rotation - Ac) % 360\<close> is \<open>2^-40\<close>.
\<close>

lemma third_spin_of_seven:
  "segmentAngle 7 = 3618963986279863 / 70368744177664"
  "Ac 7 0 = 3618963986279863 / 140737488355328"
  "minRotationDelta 7 0 (4212700265278903 / 1099511627776) = 2714222989709895 / 17592186044416"
  "newTotalRotation 7 0 (4212700265278903 / 1099511627776) = 1590365033033143 / 274877906944"
  "js_rem (jsSub (newTotalRotation 7 0 (4212700265278903 / 1099511627776)) (Ac 7 0)) 360
     = 1 / 1099511627776"
proof -
  show s: "segmentAngle 7 = 3618963986279863 / 70368744177664"
    by (simp add: segmentAngle_def double_eval)
  show a: "Ac 7 0 = 3618963986279863 / 140737488355328"
    by (simp add: Ac_def s double_eval)
  show m: "minRotationDelta 7 0 (4212700265278903 / 1099511627776) = 2714222989709895 / 17592186044416"
    by (simp add: minRotationDelta_def a double_eval)
  show n: "newTotalRotation 7 0 (4212700265278903 / 1099511627776) = 1590365033033143 / 274877906944"
    by (simp add: newTotalRotation_def m full_spins) (simp add: double_eval)
  show "js_rem (jsSub (newTotalRotation 7 0 (4212700265278903 / 1099511627776)) (Ac 7 0)) 360
     = 1 / 1099511627776"
    unfolding n a by (simp add: double_eval)
qed

theorem C1_wheel_rests_on_winner_within_rounding_witness:
  "(1::nat) \<le> 11 \<and> (0::nat) < 11 \<and> (0::real) \<le> 0
   \<and> real (11::nat) * (0 + 8000) \<le> 2 ^ 52
   \<and> underPointer 11 (newTotalRotation 11 0 0) 0
   \<and> \<bar>pointerAngle (newTotalRotation 11 0 0) - textAngle 11 0\<bar> \<le> (0 + 8000) * unitRoundoff"
proof -
  have h: "real (11::nat) * (0 + 8000) \<le> 2 ^ 52" by simp
  have p: "(1::nat) \<le> 11" "(0::nat) < 11" by simp_all
  have "underPointer 11 (newTotalRotation 11 0 0) 0
      \<and> \<bar>pointerAngle (newTotalRotation 11 0 0) - textAngle 11 0\<bar> \<le> (0 + 8000) * unitRoundoff"
    using C1_wheel_rests_on_winner_within_rounding [OF p, of 0] h by blast
  then show ?thesis using h by simp
qed

section \<open>Properties of the name pool\<close>

lemma randomIndex_less:
  assumes "0 \<le> r" and "r < 1" and "0 < n"
  shows "randomIndex r n < n"
proof -
  have "r * real n < real n" using assms by simp
  then have "\<lfloor>r * real n\<rfloor> < int n" by linarith
  moreover have "0 \<le> \<lfloor>r * real n\<rfloor>" using assms by simp
  ultimately show ?thesis unfolding randomIndex_def by linarith
qed

lemma mset_splice1:
  assumes "i < length xs"
  shows "add_mset (xs ! i) (mset (splice1 i xs)) = mset xs"
proof -
  have "xs = take i xs @ xs ! i # drop (Suc i) xs"
    using assms by (rule id_take_nth_drop)
  then have "mset xs = mset (take i xs @ xs ! i # drop (Suc i) xs)" by simp
  then show ?thesis unfolding splice1_def by simp
qed

lemma length_splice1:
  assumes "i < length xs"
  shows "length (splice1 i xs) = length xs - 1"
  using assms unfolding splice1_def by simp

lemma set_splice1_subset: "set (splice1 i xs) \<subseteq> set xs"
  unfolding splice1_def using set_take_subset set_drop_subset by fastforce

lemma selectNameIndex_noRepeat_step:
  assumes nr: "isNameNoRepeat s"
    and inb: "\<forall>i \<in> set (availableNamesIndices s). i < length (names s)"
    and ne: "availableNamesIndices s \<noteq> []"
  shows "selectNameIndex s r w =
           (Some (availableNamesIndices s ! randomIndex r (length (availableNamesIndices s))),
            updateState (\<lambda>p. p\<lparr>availableNamesIndices :=
               splice1 (randomIndex r (length (availableNamesIndices s))) (availableNamesIndices s)\<rparr>) w)"
proof -
  have f: "filter (\<lambda>i. i < length (names s)) (availableNamesIndices s) = availableNamesIndices s"
    using inb by (simp add: filter_id_conv)
  have "names s \<noteq> []" using inb ne by (cases "availableNamesIndices s") auto
  then show ?thesis
    unfolding selectNameIndex_def Let_def using nr f ne by simp
qed

lemma successiveDraws_exhaust:
  assumes "isNameNoRepeat (fst w)"
    and "\<forall>i \<in> set (availableNamesIndices (fst w)). i < length (names (fst w))"
    and "length rs \<le> length (availableNamesIndices (fst w))"
    and "\<forall>r \<in> set rs. 0 \<le> r \<and> r < 1"
  shows "\<exists>ixs. fst (successiveDraws rs w) = map Some ixs
             \<and> length ixs = length rs
             \<and> mset ixs + mset (availableNamesIndices (fst (snd (successiveDraws rs w))))
                 = mset (availableNamesIndices (fst w))"
  using assms
proof (induction rs arbitrary: w)
  case Nil
  then show ?case by simp
next
  case (Cons r rs)
  let ?s = "fst w"
  let ?pool = "availableNamesIndices ?s"
  let ?i = "randomIndex r (length ?pool)"
  let ?w1 = "updateState (\<lambda>p. p\<lparr>availableNamesIndices := splice1 ?i ?pool\<rparr>) w"
  have ne: "?pool \<noteq> []" using Cons.prems(3) by auto
  have r01: "0 \<le> r" "r < 1" using Cons.prems(4) by auto
  have i: "?i < length ?pool" using randomIndex_less [OF r01] ne by simp
  have step: "selectNameIndex ?s r w = (Some (?pool ! ?i), ?w1)"
    using selectNameIndex_noRepeat_step [OF Cons.prems(1) Cons.prems(2) ne] .
  have s1: "fst ?w1 = ?s\<lparr>availableNamesIndices := splice1 ?i ?pool\<rparr>"
    unfolding updateState_def by simp
  have p1: "isNameNoRepeat (fst ?w1)" using Cons.prems(1) s1 by simp
  have p2: "\<forall>i \<in> set (availableNamesIndices (fst ?w1)). i < length (names (fst ?w1))"
    using Cons.prems(2) set_splice1_subset [of ?i ?pool] s1 by auto
  have p3: "length rs \<le> length (availableNamesIndices (fst ?w1))"
    using Cons.prems(3) length_splice1 [OF i] s1 by simp
  have p4: "\<forall>r \<in> set rs. 0 \<le> r \<and> r < 1" using Cons.prems(4) by simp
  obtain ixs where ixs: "fst (successiveDraws rs ?w1) = map Some ixs"
      "length ixs = length rs"
      "mset ixs + mset (availableNamesIndices (fst (snd (successiveDraws rs ?w1))))
         = mset (availableNamesIndices (fst ?w1))"
    using Cons.IH [OF p1 p2 p3 p4] by blast
  have res: "successiveDraws (r # rs) w =
      (Some (?pool ! ?i) # fst (successiveDraws rs ?w1), snd (successiveDraws rs ?w1))"
    using step by (simp add: case_prod_beta)
  have "add_mset (?pool ! ?i) (mset (availableNamesIndices (fst ?w1))) = mset ?pool"
    using s1 mset_splice1 [OF i] by simp
  then have m: "mset ((?pool ! ?i) # ixs)
      + mset (availableNamesIndices (fst (snd (successiveDraws rs ?w1)))) = mset ?pool"
    using ixs(3) by simp
  show ?case
    using res ixs(1) ixs(2) m by (intro exI [of _ "(?pool ! ?i) # ixs"]) simp
qed

text \<open>
  C3. With no-repeat on and a full pool over a list of \<open>n\<close> names, any \<open>k \<le> n\<close>
  successive draws (each value of the random source in \<open>[0, 1)\<close>) all select an index;
  the indices drawn together with the pool that is left are exactly the indices
  \<open>0, ..., n - 1\<close>, each once, so no index repeats and each draw removes exactly the
  index it selected. After \<open>n\<close> draws every index has been selected exactly once and
  the pool is empty.
\<close>

theorem C3_no_repeat_exhaustive:
  assumes "isNameNoRepeat s"
    and "availableNamesIndices s = allIndices (names s)"
    and "length rs \<le> length (names s)"
    and "\<forall>r \<in> set rs. 0 \<le> r \<and> r < 1"
  shows "\<exists>ixs. fst (successiveDraws rs (s, v)) = map Some ixs
             \<and> length ixs = length rs
             \<and> mset ixs + mset (availableNamesIndices (fst (snd (successiveDraws rs (s, v)))))
                 = mset [0..<length (names s)]
             \<and> (length rs = length (names s) \<longrightarrow>
                   mset ixs = mset [0..<length (names s)]
                 \<and> availableNamesIndices (fst (snd (successiveDraws rs (s, v)))) = [])"
proof -
  have a: "isNameNoRepeat (fst (s, v))" using assms(1) by simp
  have b: "\<forall>i \<in> set (availableNamesIndices (fst (s, v))). i < length (names (fst (s, v)))"
    using assms(2) by (simp add: allIndices_def)
  have c: "length rs \<le> length (availableNamesIndices (fst (s, v)))"
    using assms(2) assms(3) by (simp add: allIndices_def)
  obtain ixs where ixs: "fst (successiveDraws rs (s, v)) = map Some ixs"
      "length ixs = length rs"
      "mset ixs + mset (availableNamesIndices (fst (snd (successiveDraws rs (s, v)))))
         = mset [0..<length (names s)]"
    using successiveDraws_exhaust [OF a b c assms(4)] assms(2) by (auto simp: allIndices_def)
  have "length rs = length (names s) \<longrightarrow>
          availableNamesIndices (fst (snd (successiveDraws rs (s, v)))) = []"
  proof
    assume n: "length rs = length (names s)"
    have "size (mset ixs + mset (availableNamesIndices (fst (snd (successiveDraws rs (s, v))))))
            = size (mset [0..<length (names s)])"
      using ixs(3) by simp
    then show "availableNamesIndices (fst (snd (successiveDraws rs (s, v)))) = []"
      using ixs(2) n by simp
  qed
  then show ?thesis using ixs by auto
qed

theorem C3_no_repeat_exhaustive_witness:
  "isNameNoRepeat exampleState
   \<and> availableNamesIndices exampleState = allIndices (names exampleState)
   \<and> length [1/2, 9/10, 1/10 :: real] \<le> length (names exampleState)
   \<and> (\<exists>ixs. fst (successiveDraws [1/2, 9/10, 1/10] (exampleState, exampleView)) = map Some ixs
         \<and> mset ixs = mset [0..<3]
         \<and> availableNamesIndices
             (fst (snd (successiveDraws [1/2, 9/10, 1/10] (exampleState, exampleView)))) = [])"
proof -
  have h1: "isNameNoRepeat exampleState" by (simp add: exampleState_def)
  have h2: "availableNamesIndices exampleState = allIndices (names exampleState)"
    by (simp add: exampleState_def allIndices_def upt_rec)
  have h3: "length [1/2, 9/10, 1/10 :: real] \<le> length (names exampleState)"
    by (simp add: exampleState_def)
  have h4: "\<forall>r \<in> set [1/2, 9/10, 1/10 :: real]. 0 \<le> r \<and> r < 1" by simp
  have n: "length [1/2, 9/10, 1/10 :: real] = length (names exampleState)"
    by (simp add: exampleState_def)
  have n3: "length (names exampleState) = 3" by (simp add: exampleState_def)
  show ?thesis
    using C3_no_repeat_exhaustive [OF h1 h2 h3 h4, of exampleView] h1 h2 h3 n n3
    by auto
qed

section \<open>Properties of the group draw\<close>

lemma length_roundRobin: "length (roundRobin k i xs g) = length g"
  by (induction xs arbitrary: i g) simp_all

lemma sum_mset_list_update:
  assumes "j < length g"
  shows "(\<Sum>a\<leftarrow>g[j := g ! j @ [x]]. mset a) = (\<Sum>a\<leftarrow>g. mset a) + {#x#}"
proof -
  have u: "g[j := g ! j @ [x]] = take j g @ (g ! j @ [x]) # drop (Suc j) g"
    using assms by (rule upd_conv_take_nth_drop)
  have o: "g = take j g @ g ! j # drop (Suc j) g"
    using assms by (rule id_take_nth_drop)
  have "(\<Sum>a\<leftarrow>g[j := g ! j @ [x]]. mset a)
      = (\<Sum>a\<leftarrow>take j g. mset a) + (mset (g ! j) + {#x#}) + (\<Sum>a\<leftarrow>drop (Suc j) g. mset a)"
    by (subst u) simp
  moreover have "(\<Sum>a\<leftarrow>g. mset a)
      = (\<Sum>a\<leftarrow>take j g. mset a) + mset (g ! j) + (\<Sum>a\<leftarrow>drop (Suc j) g. mset a)"
    by (subst o) simp
  ultimately show ?thesis by simp
qed

lemma sum_mset_roundRobin:
  assumes "0 < k" and "length g = k"
  shows "(\<Sum>a\<leftarrow>roundRobin k i xs g. mset a) = (\<Sum>a\<leftarrow>g. mset a) + mset xs"
  using assms
proof (induction xs arbitrary: i g)
  case Nil
  then show ?case by simp
next
  case (Cons x xs)
  have j: "i mod k < length g" using Cons.prems by simp
  have "(\<Sum>a\<leftarrow>roundRobin k (Suc i) xs (g[i mod k := g ! (i mod k) @ [x]]). mset a)
      = (\<Sum>a\<leftarrow>g[i mod k := g ! (i mod k) @ [x]]. mset a) + mset xs"
    using Cons.IH [of "g[i mod k := g ! (i mod k) @ [x]]" "Suc i"] Cons.prems by simp
  then show ?case using sum_mset_list_update [OF j] by simp
qed

lemma roundRobin_snoc:
  "roundRobin k i (xs @ [x]) g =
     (roundRobin k i xs g)[(i + length xs) mod k :=
        roundRobin k i xs g ! ((i + length xs) mod k) @ [x]]"
  by (induction xs arbitrary: i g) simp_all

lemma length_group_makeGroups:
  assumes "0 < k" and "j < k"
  shows "length (makeGroups k xs ! j) = length xs div k + (if j < length xs mod k then 1 else 0)"
  using assms
proof (induction xs rule: rev_induct)
  case Nil
  then show ?case by (simp add: makeGroups_def)
next
  case (snoc x xs)
  let ?g = "makeGroups k xs"
  let ?m = "length xs"
  have lg: "length ?g = k" by (simp add: makeGroups_def length_roundRobin)
  have mk: "?m mod k < k" using snoc.prems by simp
  have new: "makeGroups k (xs @ [x]) = ?g[?m mod k := ?g ! (?m mod k) @ [x]]"
    unfolding makeGroups_def using roundRobin_snoc [of k 0 xs x] by simp
  have old: "length (?g ! j) = ?m div k + (if j < ?m mod k then 1 else 0)"
    using snoc.IH snoc.prems by simp
  have len: "length (makeGroups k (xs @ [x]) ! j)
      = (if j = ?m mod k then length (?g ! j) + 1 else length (?g ! j))"
    unfolding new using lg snoc.prems by (simp add: nth_list_update)
  show ?case
  proof (cases "Suc (?m mod k) = k")
    case True
    then have d: "Suc ?m div k = Suc (?m div k)" and m: "Suc ?m mod k = 0"
      by (simp_all add: div_Suc mod_Suc)
    show ?thesis using len old d m True snoc.prems by auto
  next
    case False
    then have d: "Suc ?m div k = ?m div k" and m: "Suc ?m mod k = Suc (?m mod k)"
      by (simp_all add: div_Suc mod_Suc)
    show ?thesis using len old d m False snoc.prems by auto
  qed
qed

lemma makeGroups_shape:
  assumes "0 < k"
  shows "length (makeGroups k xs) = k"
    and "\<forall>a \<in> set (makeGroups k xs). \<forall>b \<in> set (makeGroups k xs). length a \<le> length b + 1"
    and "(\<Sum>a\<leftarrow>makeGroups k xs. mset a) = mset xs"
proof -
  show l: "length (makeGroups k xs) = k" by (simp add: makeGroups_def length_roundRobin)
  show "\<forall>a \<in> set (makeGroups k xs). \<forall>b \<in> set (makeGroups k xs). length a \<le> length b + 1"
  proof (intro ballI)
    fix a b
    assume "a \<in> set (makeGroups k xs)" and "b \<in> set (makeGroups k xs)"
    then obtain i j where i: "i < k" "a = makeGroups k xs ! i" and j: "j < k" "b = makeGroups k xs ! j"
      using l by (metis in_set_conv_nth)
    show "length a \<le> length b + 1"
      using length_group_makeGroups [OF assms i(1), of xs]
            length_group_makeGroups [OF assms j(1), of xs] i(2) j(2)
      by (simp split: if_splits)
  qed
  have "(\<Sum>a\<leftarrow>replicate k ([]::'a list). mset a) = {#}"
    by (induction k) simp_all
  then show "(\<Sum>a\<leftarrow>makeGroups k xs. mset a) = mset xs"
    unfolding makeGroups_def using sum_mset_roundRobin [OF assms, of "replicate k []" 0 xs] by simp
qed


lemma handleDraw_groups:
  assumes "mode s = Groups" and "1 \<le> numGroups s" and "numGroups s \<le> int (length (names s))"
  shows "history (fst (handleDraw s v h)) =
           take 50 (\<lparr>h_id = dateNow h,
                     h_result = groupsText (makeGroups (nat (numGroups s)) (sortRandom h (names s))),
                     h_mode = mode s, h_timestamp = timeString h,
                     h_groups = Some (makeGroups (nat (numGroups s)) (sortRandom h (names s)))\<rparr>
                    # history s)"
proof -
  have "names s \<noteq> []" using assms(2) assms(3) by auto
  then show ?thesis
    using assms
    unfolding handleDraw_def logHistory_def newEntry_def setResultCardText_def updateState_def Let_def
    by simp
qed

text \<open>
  C4. In group mode with \<open>1 \<le> numGroups \<le> names.length\<close>, whatever permutation of the
  names the engine's sort returns, the draw logs exactly \<open>numGroups\<close> groups (the
  round-robin assignment of the shuffled list), the sizes of any two groups differ by
  at most 1, and the multiset union of the groups is the multiset of the names.
\<close>

theorem C4_group_partition_shape:
  assumes "mode s = Groups"
    and "1 \<le> numGroups s"
    and "numGroups s \<le> int (length (names s))"
    and "mset (sortRandom h (names s)) = mset (names s)"
  shows "\<exists>grps. h_groups (hd (history (fst (handleDraw s v h)))) = Some grps
            \<and> grps = makeGroups (nat (numGroups s)) (sortRandom h (names s))
            \<and> int (length grps) = numGroups s
            \<and> (\<forall>a \<in> set grps. \<forall>b \<in> set grps. length a \<le> length b + 1)
            \<and> (\<Sum>a\<leftarrow>grps. mset a) = mset (names s)"
proof -
  let ?grps = "makeGroups (nat (numGroups s)) (sortRandom h (names s))"
  have k: "0 < nat (numGroups s)" using assms(2) by simp
  have "h_groups (hd (history (fst (handleDraw s v h)))) = Some ?grps"
    using handleDraw_groups [OF assms(1) assms(2) assms(3)] by simp
  moreover have "int (length ?grps) = numGroups s"
    using makeGroups_shape(1) [OF k, of "sortRandom h (names s)"] assms(2) by simp
  moreover have "\<forall>a \<in> set ?grps. \<forall>b \<in> set ?grps. length a \<le> length b + 1"
    using makeGroups_shape(2) [OF k, of "sortRandom h (names s)"] by blast
  moreover have "(\<Sum>a\<leftarrow>?grps. mset a) = mset (names s)"
    using makeGroups_shape(3) [OF k, of "sortRandom h (names s)"] assms(4) by simp
  ultimately show ?thesis by blast
qed

lemma makeGroups_example:
  "makeGroups 2 (rev [''A'', ''B'', ''C'', ''D'', ''E'']) = [[''E'', ''C'', ''A''], [''D'', ''B'']]"
  by code_simp

theorem C4_group_partition_shape_witness:
  "mode groupsState = Groups \<and> 1 \<le> numGroups groupsState
   \<and> numGroups groupsState \<le> int (length (names groupsState))
   \<and> mset (sortRandom exampleHost (names groupsState)) = mset (names groupsState)
   \<and> (\<exists>grps. h_groups (hd (history (fst (handleDraw groupsState exampleView exampleHost)))) = Some grps
            \<and> int (length grps) = 2
            \<and> (\<forall>a \<in> set grps. \<forall>b \<in> set grps. length a \<le> length b + 1)
            \<and> (\<Sum>a\<leftarrow>grps. mset a) = mset [''A'', ''B'', ''C'', ''D'', ''E''])"
proof -
  have h1: "mode groupsState = Groups" by (simp add: groupsState_def)
  have h2: "1 \<le> numGroups groupsState" by (simp add: groupsState_def)
  have h3: "numGroups groupsState \<le> int (length (names groupsState))"
    by (simp add: groupsState_def)
  have h4: "mset (sortRandom exampleHost (names groupsState)) = mset (names groupsState)"
    by (simp add: exampleHost_def)
  have n: "names groupsState = [''A'', ''B'', ''C'', ''D'', ''E'']" "numGroups groupsState = 2"
    by (simp_all add: groupsState_def)
  show ?thesis
    using C4_group_partition_shape [OF h1 h2 h3 h4, of exampleView] h1 h2 h3 h4 n
    by auto
qed

section \<open>Properties of the history log\<close>





section \<open>Properties of pool exhaustion and of paired draws\<close>

lemma nth_allIndices: "j < length xs \<Longrightarrow> allIndices xs ! j = j"
  by (simp add: allIndices_def)

lemma length_allIndices: "length (allIndices xs) = length xs"
  by (simp add: allIndices_def)

lemma selectNameIndex_exhausted:
  assumes "names s \<noteq> []" and "isNameNoRepeat s"
    and "filter (\<lambda>i. i < length (names s)) (availableNamesIndices s) = []"
  shows "selectNameIndex s r w =
           (None, resetAvailableNames s (showToast ''All names drawn! Resetting list.'' w))"
  using assms unfolding selectNameIndex_def Let_def by simp

lemma selectTask_exhausted:
  assumes "tasks s \<noteq> []" and "isTaskNoRepeat s"
    and "filter (\<lambda>i. i < length (tasks s)) (availableTasksIndices s) = []"
    and "0 \<le> r" and "r < 1"
  shows "selectTask s r w =
           (tasks s ! randomIndex r (length (tasks s)),
            updateState (\<lambda>p. p\<lparr>availableTasksIndices :=
                splice1 (randomIndex r (length (tasks s))) (allIndices (tasks s))\<rparr>)
              (resetAvailableTasks s (showToast ''All tasks assigned! Resetting task list.'' w)))"
proof -
  have j: "randomIndex r (length (tasks s)) < length (tasks s)"
    using randomIndex_less [OF assms(4) assms(5)] assms(1) by simp
  show ?thesis
    using assms(1) assms(2) assms(3) nth_allIndices [OF j]
    unfolding selectTask_def Let_def by (simp add: length_allIndices)
qed

lemma handleDraw_paired:
  assumes "mode s = Paired" and "names s \<noteq> []" and "tasks s \<noteq> []"
    and "selectNameIndex s (randomName h) (s, v) = (Some idx, w1)"
  shows "handleDraw s v h =
           (let res = names s ! idx @ '' is assigned to: '' @ fst (selectTask s (randomTask h) w1)
            in setResultCardText res (logHistory s h res None (snd (selectTask s (randomTask h) w1))))"
  using assms unfolding handleDraw_def Let_def by (simp add: case_prod_beta)

text \<open>
  C7. When the no-repeat name pool of a non-empty name list is empty after the stale
  indices are filtered out, a single, paired or interactive draw selects nothing: it
  resets the name pool to the full index range, shows the notification and changes
  nothing else, so the draw has to be triggered again. When the no-repeat task pool is empty during a paired
  draw whose name selection succeeded, the task is selected in the same call from the
  full index range of the tasks: the task pool is left as the full range without the
  selected position, and the draw is logged and displayed.
\<close>

theorem C7_pool_exhaustion_asymmetry:
  "(names s \<noteq> [] \<and> isNameNoRepeat s
      \<and> filter (\<lambda>i. i < length (names s)) (availableNamesIndices s) = []
      \<and> (mode s = Single \<or> mode s = Paired
           \<or> mode s = Interactive \<and> 2 \<le> length (names s) \<and> isSpinning v = False)
     \<longrightarrow> fst (selectNameIndex s r (s, v)) = None
       \<and> handleDraw s v h =
            (s\<lparr>availableNamesIndices := allIndices (names s)\<rparr>,
             v\<lparr>tempMessage := Some ''All names drawn! Resetting list.''\<rparr>))
   \<and> (mode t = Paired \<and> names t \<noteq> [] \<and> tasks t \<noteq> [] \<and> isTaskNoRepeat t
      \<and> filter (\<lambda>i. i < length (tasks t)) (availableTasksIndices t) = []
      \<and> selectNameIndex t (randomName g) (t, u) = (Some idx, w1)
      \<and> 0 \<le> randomTask g \<and> randomTask g < 1
     \<longrightarrow> randomIndex (randomTask g) (length (tasks t)) < length (tasks t)
       \<and> availableTasksIndices (fst (handleDraw t u g)) =
            splice1 (randomIndex (randomTask g) (length (tasks t))) (allIndices (tasks t))
       \<and> history (fst (handleDraw t u g)) =
            take 50 (newEntry t g (names t ! idx @ '' is assigned to: ''
                        @ tasks t ! randomIndex (randomTask g) (length (tasks t))) None
                     # history t)
       \<and> resultCardText (snd (handleDraw t u g)) =
            names t ! idx @ '' is assigned to: ''
              @ tasks t ! randomIndex (randomTask g) (length (tasks t)))"
proof (intro conjI impI)
  assume a: "names s \<noteq> [] \<and> isNameNoRepeat s
      \<and> filter (\<lambda>i. i < length (names s)) (availableNamesIndices s) = []
      \<and> (mode s = Single \<or> mode s = Paired
           \<or> mode s = Interactive \<and> 2 \<le> length (names s) \<and> isSpinning v = False)"
  have sel: "selectNameIndex s r' (s, v) =
      (None, resetAvailableNames s (showToast ''All names drawn! Resetting list.'' (s, v)))" for r'
    using selectNameIndex_exhausted [of s r' "(s, v)"] a by simp
  show "fst (selectNameIndex s r (s, v)) = None" using sel by simp
  show "handleDraw s v h =
            (s\<lparr>availableNamesIndices := allIndices (names s)\<rparr>,
             v\<lparr>tempMessage := Some ''All names drawn! Resetting list.''\<rparr>)"
    using a sel [of "randomName h"]
    unfolding handleDraw_def Let_def resetAvailableNames_def showToast_def updateState_def
    by auto
next
  assume b: "mode t = Paired \<and> names t \<noteq> [] \<and> tasks t \<noteq> [] \<and> isTaskNoRepeat t
      \<and> filter (\<lambda>i. i < length (tasks t)) (availableTasksIndices t) = []
      \<and> selectNameIndex t (randomName g) (t, u) = (Some idx, w1)
      \<and> 0 \<le> randomTask g \<and> randomTask g < 1"
  let ?j = "randomIndex (randomTask g) (length (tasks t))"
  let ?res = "names t ! idx @ '' is assigned to: '' @ tasks t ! ?j"
  show j: "?j < length (tasks t)"
    using randomIndex_less [of "randomTask g" "length (tasks t)"] b by simp
  have st: "selectTask t (randomTask g) w1 =
           (tasks t ! ?j,
            updateState (\<lambda>p. p\<lparr>availableTasksIndices := splice1 ?j (allIndices (tasks t))\<rparr>)
              (resetAvailableTasks t (showToast ''All tasks assigned! Resetting task list.'' w1)))"
    using selectTask_exhausted [of t "randomTask g" w1] b by simp
  have hd: "handleDraw t u g =
      setResultCardText ?res (logHistory t g ?res None
        (updateState (\<lambda>p. p\<lparr>availableTasksIndices := splice1 ?j (allIndices (tasks t))\<rparr>)
              (resetAvailableTasks t (showToast ''All tasks assigned! Resetting task list.'' w1))))"
    using handleDraw_paired [of t g u idx w1] b st by (simp add: Let_def)
  show "availableTasksIndices (fst (handleDraw t u g)) = splice1 ?j (allIndices (tasks t))"
    unfolding hd setResultCardText_def logHistory_def updateState_def Let_def by simp
  show "history (fst (handleDraw t u g)) = take 50 (newEntry t g ?res None # history t)"
    unfolding hd setResultCardText_def logHistory_def updateState_def Let_def by simp
  show "resultCardText (snd (handleDraw t u g)) = ?res"
    unfolding hd setResultCardText_def by simp
qed


theorem C7_pool_exhaustion_asymmetry_witness:
  "names exhaustedState \<noteq> [] \<and> isNameNoRepeat exhaustedState
   \<and> filter (\<lambda>i. i < length (names exhaustedState)) (availableNamesIndices exhaustedState) = []
   \<and> handleDraw exhaustedState exampleView exampleHost =
        (exhaustedState\<lparr>availableNamesIndices := [0, 1, 2]\<rparr>,
         exampleView\<lparr>tempMessage := Some ''All names drawn! Resetting list.''\<rparr>)
   \<and> mode pairedState = Paired \<and> isTaskNoRepeat pairedState
   \<and> filter (\<lambda>i. i < length (tasks pairedState)) (availableTasksIndices pairedState) = []
   \<and> availableTasksIndices (fst (handleDraw pairedState exampleView exampleHost)) = [1]
   \<and> resultCardText (snd (handleDraw pairedState exampleView exampleHost))
        = ''C is assigned to: Read''"
proof -
  have a: "names exhaustedState \<noteq> [] \<and> isNameNoRepeat exhaustedState
      \<and> filter (\<lambda>i. i < length (names exhaustedState)) (availableNamesIndices exhaustedState) = []
      \<and> (mode exhaustedState = Single \<or> mode exhaustedState = Paired
           \<or> mode exhaustedState = Interactive \<and> 2 \<le> length (names exhaustedState)
              \<and> isSpinning exampleView = False)"
    by (simp add: exhaustedState_def)
  have sel: "selectNameIndex pairedState (randomName exampleHost) (pairedState, exampleView)
      = (Some 2, (pairedState\<lparr>availableNamesIndices := [0]\<rparr>, exampleView))"
    by (simp add: selectNameIndex_def pairedState_def exampleHost_def randomIndex_def
        splice1_def updateState_def Let_def)
  have b: "mode pairedState = Paired \<and> names pairedState \<noteq> [] \<and> tasks pairedState \<noteq> []
      \<and> isTaskNoRepeat pairedState
      \<and> filter (\<lambda>i. i < length (tasks pairedState)) (availableTasksIndices pairedState) = []
      \<and> selectNameIndex pairedState (randomName exampleHost) (pairedState, exampleView)
           = (Some 2, (pairedState\<lparr>availableNamesIndices := [0]\<rparr>, exampleView))
      \<and> 0 \<le> randomTask exampleHost \<and> randomTask exampleHost < 1"
    using sel by (simp add: pairedState_def exampleHost_def)
  have j: "randomIndex (randomTask exampleHost) (length (tasks pairedState)) = 0"
    by (simp add: randomIndex_def exampleHost_def pairedState_def)
  have v: "names pairedState ! 2 = ''C''" "tasks pairedState ! 0 = ''Read''"
    "splice1 0 (allIndices (tasks pairedState)) = [1]"
    "allIndices (names exhaustedState) = [0, 1, 2]"
    by (simp_all add: pairedState_def exhaustedState_def splice1_def allIndices_def upt_rec)
  note t = C7_pool_exhaustion_asymmetry [where s = exhaustedState and v = exampleView
        and h = exampleHost and t = pairedState and u = exampleView and g = exampleHost
        and idx = 2 and ?w1.0 = "(pairedState\<lparr>availableNamesIndices := [0]\<rparr>, exampleView)"]
  have first: "handleDraw exhaustedState exampleView exampleHost =
        (exhaustedState\<lparr>availableNamesIndices := allIndices (names exhaustedState)\<rparr>,
         exampleView\<lparr>tempMessage := Some ''All names drawn! Resetting list.''\<rparr>)"
    using t a by blast
  have second: "availableTasksIndices (fst (handleDraw pairedState exampleView exampleHost)) =
        splice1 (randomIndex (randomTask exampleHost) (length (tasks pairedState)))
          (allIndices (tasks pairedState))
      \<and> resultCardText (snd (handleDraw pairedState exampleView exampleHost)) =
        names pairedState ! 2 @ '' is assigned to: ''
          @ tasks pairedState ! randomIndex (randomTask exampleHost) (length (tasks pairedState))"
    using t b by blast
  show ?thesis
    using first second a b unfolding j v by simp
qed

lemma handleDraw_paired_no_tasks_history:
  assumes "mode s = Paired" and "tasks s = []"
  shows "history (fst (handleDraw s v h)) = history s"
  using assms
  unfolding handleDraw_def selectNameIndex_def Let_def showToast_def updateState_def
    resetAvailableNames_def
  by (simp split: prod.splits option.splits)

text \<open>
  C8. A paired draw of the single name \<open>A\<close> with no tasks, no-repeat on and the pool
  \<open>[0]\<close>: the draw fails with the notification and appends nothing to the history,
  but the name was selected before the task list was looked at, and the no-repeat name
  pool is left empty.
\<close>

theorem C8_paired_failure_consumes_name:
  "availableNamesIndices pairedNoTasks = [0]
   \<and> handleDraw pairedNoTasks exampleView exampleHost =
        (pairedNoTasks\<lparr>availableNamesIndices := []\<rparr>,
         exampleView\<lparr>tempMessage := Some ''Add tasks for paired mode.''\<rparr>)"
  by (simp add: handleDraw_def selectNameIndex_def pairedNoTasks_def exampleHost_def
      randomIndex_def splice1_def updateState_def showToast_def allIndices_def Let_def)

section \<open>Properties of list edits\<close>


text \<open>
  Switching no-repeat off for the names, with the pool \<open>[0, 2]\<close> over three names: the
  pool stays \<open>[0, 2]\<close>; it is not set to the full index range.
\<close>

theorem C10_toggle_off_keeps_pool:
  "availableNamesIndices (fst (toggleNameNoRepeat pairedState (pairedState, exampleView))) = [0, 2]
   \<and> allIndices (names (fst (toggleNameNoRepeat pairedState (pairedState, exampleView)))) = [0, 1, 2]
   \<and> availableNamesIndices (fst (toggleNameNoRepeat pairedState (pairedState, exampleView)))
       \<noteq> allIndices (names (fst (toggleNameNoRepeat pairedState (pairedState, exampleView))))"
  by (simp add: toggleNameNoRepeat_def pairedState_def updateState_def allIndices_def upt_rec Let_def)

lemma addItems_names:
  "fst (addItems Names x s (s, v)) = s
   \<or> availableNamesIndices (fst (addItems Names x s (s, v)))
       = allIndices (names (fst (addItems Names x s (s, v))))"
  unfolding addItems_def updateState_def showToast_def Let_def by simp

lemma addItems_tasks:
  "fst (addItems Tasks x s (s, v)) = s
   \<or> availableTasksIndices (fst (addItems Tasks x s (s, v)))
       = allIndices (tasks (fst (addItems Tasks x s (s, v))))"
  unfolding addItems_def updateState_def showToast_def Let_def by simp

lemma removeItem_resets:
  "names (fst (removeItem Names i s (s, v))) = splice1 i (names s)"
  "availableNamesIndices (fst (removeItem Names i s (s, v))) = allIndices (splice1 i (names s))"
  "tasks (fst (removeItem Tasks i s (s, v))) = splice1 i (tasks s)"
  "availableTasksIndices (fst (removeItem Tasks i s (s, v))) = allIndices (splice1 i (tasks s))"
  unfolding removeItem_def updateState_def Let_def by simp_all

lemma shuffleNames_resets:
  "availableNamesIndices (fst (shuffleNames rs s (s, v)))
     = allIndices (names (fst (shuffleNames rs s (s, v))))"
  unfolding shuffleNames_def updateState_def showToast_def Let_def by simp

lemma toggle_resets:
  "fst (toggleNameNoRepeat s (s, v)) =
     (if isNameNoRepeat s then s\<lparr>isNameNoRepeat := False\<rparr>
      else s\<lparr>isNameNoRepeat := True, availableNamesIndices := allIndices (names s)\<rparr>)"
  "fst (toggleTaskNoRepeat s (s, v)) =
     (if isTaskNoRepeat s then s\<lparr>isTaskNoRepeat := False\<rparr>
      else s\<lparr>isTaskNoRepeat := True, availableTasksIndices := allIndices (tasks s)\<rparr>)"
  unfolding toggleNameNoRepeat_def toggleTaskNoRepeat_def resetAvailableNames_def
    resetAvailableTasks_def updateState_def Let_def by simp_all

text \<open>
  C10, amended. \<^verbatim>\<open>addItems\<close> either leaves the state as it is (nothing new to add) or
  leaves the pool of the list as the full index range of the extended list;
  \<^verbatim>\<open>removeItem\<close> and \<^verbatim>\<open>shuffleNames\<close> always leave the pool as the full index range of
  the new list; switching no-repeat on sets the pool to the full index range, and
  switching it off changes the flag only.
\<close>

theorem C10_mutations_reset_pool:
  "(fst (addItems Names x s (s, v)) = s
     \<or> availableNamesIndices (fst (addItems Names x s (s, v)))
         = allIndices (names (fst (addItems Names x s (s, v)))))
   \<and> (fst (addItems Tasks x s (s, v)) = s
     \<or> availableTasksIndices (fst (addItems Tasks x s (s, v)))
         = allIndices (tasks (fst (addItems Tasks x s (s, v)))))
   \<and> names (fst (removeItem Names i s (s, v))) = splice1 i (names s)
   \<and> availableNamesIndices (fst (removeItem Names i s (s, v))) = allIndices (splice1 i (names s))
   \<and> tasks (fst (removeItem Tasks i s (s, v))) = splice1 i (tasks s)
   \<and> availableTasksIndices (fst (removeItem Tasks i s (s, v))) = allIndices (splice1 i (tasks s))
   \<and> availableNamesIndices (fst (shuffleNames rs s (s, v)))
       = allIndices (names (fst (shuffleNames rs s (s, v))))
   \<and> fst (toggleNameNoRepeat s (s, v)) =
       (if isNameNoRepeat s then s\<lparr>isNameNoRepeat := False\<rparr>
        else s\<lparr>isNameNoRepeat := True, availableNamesIndices := allIndices (names s)\<rparr>)
   \<and> fst (toggleTaskNoRepeat s (s, v)) =
       (if isTaskNoRepeat s then s\<lparr>isTaskNoRepeat := False\<rparr>
        else s\<lparr>isTaskNoRepeat := True, availableTasksIndices := allIndices (tasks s)\<rparr>)"
  using addItems_names [of x s v] addItems_tasks [of x s v] removeItem_resets [of i s v]
    shuffleNames_resets [of rs s v] toggle_resets [of s v]
  by blast

lemma addItems_example:
  "fst (addItems Names (''D'' @ [CHR 0x0A] @ '' E '' @ [CHR 0x09] @ ''A'') pairedState (pairedState, exampleView))
     = pairedState\<lparr>names := [''A'', ''B'', ''C'', ''D'', ''E''], availableNamesIndices := [0, 1, 2, 3, 4]\<rparr>"
  by (simp add: addItems_def trim_def isWhiteSpace_def isLineSep_def pairedState_def
      updateState_def showToast_def allIndices_def upt_rec Let_def)

theorem C10_mutations_reset_pool_witness:
  "availableNamesIndices (fst (removeItem Names 1 pairedState (pairedState, exampleView))) = [0, 1]
   \<and> fst (toggleNameNoRepeat pairedState (pairedState, exampleView))
       = pairedState\<lparr>isNameNoRepeat := False\<rparr>
   \<and> availableTasksIndices (fst (toggleTaskNoRepeat exhaustedState (exhaustedState, exampleView)))
       = []"
  using C10_mutations_reset_pool [where s = pairedState and v = exampleView and i = 1]
    C10_mutations_reset_pool [where s = exhaustedState and v = exampleView]
  by (simp add: pairedState_def exhaustedState_def splice1_def allIndices_def upt_rec)

section \<open>Properties of cancellation\<close>

lemma cardCancelled_timers:
  "timers cardCancelled = [(1, 2000, CardPicking), (2, 3000, CardRevealed), (3, 5000, CardEnd)]"
  by (simp add: cardCancelled_def cardCleanup_def advanceTo_def cardEffect_def setTimeout_def
      idleWorld_def truthy_def Let_def)

text \<open>
  C6. A card draw torn down 1000 ms after its start: no completion callback has run by
  then, the three timers of the session are still pending after the teardown, and when
  the clock reaches 5000 ms the completion callback \<^verbatim>\<open>onEnd\<close> is invoked.
\<close>

theorem C6_card_cancelled_still_completes:
  "completions cardCancelled = 0
   \<and> map (\<lambda>t. snd (snd t)) (timers cardCancelled) = [CardPicking, CardRevealed, CardEnd]
   \<and> completions (advanceTo 5000 cardCancelled) = 1"
  by (simp add: cardCancelled_def cardCleanup_def advanceTo_def cardEffect_def setTimeout_def
      idleWorld_def truthy_def fire_def complete_def playDrawSound_def Let_def)

text \<open>
  The marble race cancels its frame request on teardown, but not the timer for
  \<^verbatim>\<open>onRaceEnd\<close> that was set when the winner was declared.
\<close>

lemma marble_cancelled_still_completes:
  "completions marbleCancelled = 0
   \<and> frameRequests marbleCancelled = []
   \<and> timers marbleCancelled = [(3, 5600, RaceEnd)]
   \<and> completions (advanceTo 5600 marbleCancelled) = 1"
  by (simp add: marbleCancelled_def marbleEffect_def marbleCleanup_def marbleAnimate_def
      animationFrame_def advanceTo_def requestAnimationFrame_def cancelAnimationFrame_def
      setTimeout_def idleWorld_def truthy_def fire_def complete_def playDrawSound_def Let_def)

lemma quiet_advanceTo:
  assumes "timers w = []"
  shows "timers (advanceTo t w) = [] \<and> frameRequests (advanceTo t w) = frameRequests w
       \<and> completions (advanceTo t w) = completions w"
  using assms unfolding advanceTo_def by simp

lemma quiet_animationFrame:
  assumes "frameRequests w = []"
  shows "timers (animationFrame t w) = timers w \<and> frameRequests (animationFrame t w) = []
       \<and> completions (animationFrame t w) = completions w"
  using assms unfolding animationFrame_def by simp

lemma quiet_runEvents:
  assumes "timers w = []" and "frameRequests w = []"
  shows "completions (runEvents es w) = completions w"
  using assms
proof (induction es arbitrary: w)
  case Nil
  then show ?case by simp
next
  case (Cons e es)
  show ?case
  proof (cases e)
    case (Advance t)
    then show ?thesis
      using Cons.IH [of "advanceTo t w"] quiet_advanceTo [OF Cons.prems(1), of t] Cons.prems(2)
      by simp
  next
    case (Frame t)
    then show ?thesis
      using Cons.IH [of "animationFrame t w"] quiet_animationFrame [OF Cons.prems(2), of t]
        Cons.prems(1)
      by simp
  qed
qed

text \<open>
  The wheel clears its timer on teardown: cancelled before the 6000 ms have passed, the
  session never invokes \<^verbatim>\<open>onSpinEnd\<close>, whatever the host does afterwards.
\<close>

lemma wheel_cancelled_never_completes:
  assumes "timers w = []" and "frameRequests w = []" and "0 \<le> t" and "t < 6000"
  shows "completions
           (runEvents es (wheelCleanup (fst (wheelEffect n True (Some wi) w))
              (advanceTo (now w + t) (snd (wheelEffect n True (Some wi) w)))))
         = completions w"
proof -
  let ?new = "newTotalRotation n wi (wheelLastRotation w)"
  let ?w1 = "snd (wheelEffect n True (Some wi) w)"
  have c: "fst (wheelEffect n True (Some wi) w) = Some (nextHandle w)"
    unfolding wheelEffect_def setTimeout_def Let_def by simp
  have t1: "timers ?w1 = [(nextHandle w, now w + 6000, WheelSpinDone ?new)]"
    unfolding wheelEffect_def setTimeout_def Let_def using assms(1) by simp
  have f1: "frameRequests ?w1 = []" "completions ?w1 = completions w" "now ?w1 = now w"
    unfolding wheelEffect_def setTimeout_def Let_def using assms(2) by simp_all
  let ?w2 = "advanceTo (now w + t) ?w1"
  have w2: "timers ?w2 = timers ?w1" "frameRequests ?w2 = []" "completions ?w2 = completions w"
    unfolding advanceTo_def Let_def using t1 f1 assms(4) by simp_all
  let ?w3 = "wheelCleanup (Some (nextHandle w)) ?w2"
  have w3: "timers ?w3 = []" "frameRequests ?w3 = []" "completions ?w3 = completions w"
    unfolding wheelCleanup_def clearTimeout_def using w2 t1 by simp_all
  show ?thesis using quiet_runEvents [OF w3(1) w3(2), of es] w3(3) c by simp
qed

section \<open>Properties of the shuffle of the group draw\<close>

lemma three_not_dvd_power_two: "\<not> (3::nat) dvd 2 ^ m"
proof
  assume "(3::nat) dvd 2 ^ m"
  moreover have "coprime (3::nat) (2 ^ m)" by simp
  ultimately have "is_unit (3::nat)" using coprime_absorb_left coprime_common_divisor by blast
  then show False by simp
qed

text \<open>
  C5. The shuffle of the group draw on three names, for any engine and any bound \<open>m\<close> on
  its comparator calls: there are \<open>2 ^ m\<close> equally likely coin sequences, and the number
  of them that give an arrangement \<open>p\<close>, times 6, is never \<open>2 ^ m\<close>. So no arrangement
  has probability 1/6, and the six permutations are not equally likely.
\<close>

theorem C5_sort_shuffle_not_uniform:
  "length (shuffleOutcomes engine m [a, b, c]) = 2 ^ m
   \<and> 6 * outcomeCount engine m [a, b, c] p \<noteq> 2 ^ m"
proof -
  have "length (shuffleOutcomes engine m [a, b, c]) = 2 ^ m"
    unfolding shuffleOutcomes_def coinSequences_def by (simp add: length_n_lists numeral_2_eq_2)
  moreover have "6 * outcomeCount engine m [a, b, c] p \<noteq> 2 ^ m"
  proof
    assume e: "6 * outcomeCount engine m [a, b, c] p = 2 ^ m"
    have "6 * outcomeCount engine m [a, b, c] p = 3 * (2 * outcomeCount engine m [a, b, c] p)"
      by simp
    then have "(3::nat) dvd 6 * outcomeCount engine m [a, b, c] p"
      by (rule dvdI)
    then have "(3::nat) dvd 2 ^ m" using e by simp
    then show False using three_not_dvd_power_two by blast
  qed
  ultimately show ?thesis by blast
qed

text \<open>
  With insertion sort, of the 8 coin sequences 2 leave \<open>A, B, C\<close> in place and 2 give
  \<open>B, A, C\<close>; each other permutation comes from one sequence only.
\<close>

lemma insertionSort_outcomes:
  "map (outcomeCount insertionSort 3 [''A'', ''B'', ''C''])
     [[''A'', ''B'', ''C''], [''A'', ''C'', ''B''], [''B'', ''A'', ''C''],
      [''B'', ''C'', ''A''], [''C'', ''A'', ''B''], [''C'', ''B'', ''A'']]
   = [2, 1, 2, 1, 1, 1]"
  by code_simp

section \<open>Properties of the lane races\<close>

subsection \<open>Estimates of the sine\<close>

text \<open>The sine differs from \<open>x - x^3/6\<close> by at most \<open>x^5/120\<close>.\<close>

lemma fact_5: "fact 5 = (120::real)"
  by (simp add: fact_numeral)

lemma sum_less_5:
  fixes f :: "nat \<Rightarrow> real"
  shows "(\<Sum>m<5. f m) = f 0 + f 1 + f 2 + f 3 + f 4"
  by (simp add: numeral_eq_Suc)

lemma sin_coeff_values:
  "sin_coeff 1 = 1" "sin_coeff 2 = 0" "sin_coeff 3 = - 1 / 6" "sin_coeff 4 = 0"
  by (simp_all add: sin_coeff_def numeral_3_eq_3 fact_numeral)

lemma sin_poly_bound:
  fixes x :: real
  assumes "0 \<le> x"
  shows "\<bar>sin x - (x - x ^ 3 / 6)\<bar> \<le> x ^ 5 / 120"
proof -
  have s: "(\<Sum>m<5. sin_coeff m * x ^ m) = x - x ^ 3 / 6"
    unfolding sum_less_5 sin_coeff_values sin_coeff_0 by simp
  have i: "inverse (fact 5) * \<bar>x\<bar> ^ 5 = x ^ 5 / 120"
    unfolding fact_5 using assms by (simp add: field_simps)
  have "\<bar>sin x - (\<Sum>m<5. sin_coeff m * x ^ m)\<bar> \<le> inverse (fact 5) * \<bar>x\<bar> ^ 5"
    by (rule Maclaurin_sin_bound)
  then show ?thesis unfolding s i .
qed

text \<open>
  Bounds on \<open>pi\<close>, from the value \<open>1/2\<close> of the sine at \<open>pi/6\<close> and the bound above at
  0.52 and at 0.525.
\<close>

lemma pi_gt_312: "(312 / 100 :: real) < pi"
proof (rule ccontr)
  assume "\<not> (312 / 100 :: real) < pi"
  then have le: "pi / 6 \<le> (52 / 100 :: real)" by simp
  have "sin (pi / 6) \<le> sin (52 / 100 :: real)"
  proof (rule sin_monotone_2pi_le)
    show "- (pi / 2) \<le> pi / 6" by simp
    show "pi / 6 \<le> (52 / 100 :: real)" by (rule le)
    show "(52 / 100 :: real) \<le> pi / 2" using pi_ge_two by simp
  qed
  then have h: "1 / 2 \<le> sin (52 / 100 :: real)" by (simp add: sin_30)
  have "\<bar>sin (52 / 100 :: real) - (52 / 100 - (52 / 100) ^ 3 / 6)\<bar> \<le> (52 / 100) ^ 5 / 120"
    by (rule sin_poly_bound) simp
  then have "sin (52 / 100 :: real) \<le> (52 / 100 - (52 / 100) ^ 3 / 6) + (52 / 100) ^ 5 / 120"
    by linarith
  also have "\<dots> < 1 / 2" by (simp add: power_divide)
  finally show False using h by simp
qed

lemma pi_lt_315: "pi < (315 / 100 :: real)"
proof (rule ccontr)
  assume "\<not> pi < (315 / 100 :: real)"
  then have le: "(525 / 1000 :: real) \<le> pi / 6" by simp
  have "sin (525 / 1000 :: real) \<le> sin (pi / 6)"
  proof (rule sin_monotone_2pi_le)
    show "- (pi / 2) \<le> (525 / 1000 :: real)"
      using pi_ge_zero by (smt (verit) divide_nonneg_nonneg)
    show "(525 / 1000 :: real) \<le> pi / 6" by (rule le)
    show "pi / 6 \<le> pi / 2" by simp
  qed
  then have h: "sin (525 / 1000 :: real) \<le> 1 / 2" by (simp add: sin_30)
  have "\<bar>sin (525 / 1000 :: real) - (525 / 1000 - (525 / 1000) ^ 3 / 6)\<bar> \<le> (525 / 1000) ^ 5 / 120"
    by (rule sin_poly_bound) simp
  then have "(525 / 1000 - (525 / 1000) ^ 3 / 6) - (525 / 1000) ^ 5 / 120 \<le> sin (525 / 1000 :: real)"
    by linarith
  moreover have "1 / 2 < (525 / 1000 - (525 / 1000) ^ 3 / 6) - (525 / 1000 :: real) ^ 5 / 120"
    by (simp add: power_divide)
  ultimately show False using h by linarith
qed

lemma sin_ge_half:
  fixes x :: real
  assumes "pi / 6 \<le> x" and "x \<le> 5 * pi / 6"
  shows "1 / 2 \<le> sin x"
proof (cases "x \<le> pi / 2")
  case True
  have "sin (pi / 6) \<le> sin x"
    by (rule sin_monotone_2pi_le) (use assms True in simp_all)
  then show ?thesis by (simp add: sin_30)
next
  case False
  have "sin (pi / 6) \<le> sin (pi - x)"
    by (rule sin_monotone_2pi_le) (use assms False in simp_all)
  then show ?thesis by (simp add: sin_30)
qed

lemma sin_add_npi: "sin (x + real n * pi) = (- 1) ^ n * sin x"
  by (simp add: sin_add)

text \<open>The sine at the two phases of the second frame of the example race.\<close>

lemma sin_197_5: "1 / 2 \<le> sin (197 / 5 :: real)"
proof -
  have "sin ((197 / 5 - 12 * pi) + real 12 * pi) = (- 1) ^ 12 * sin (197 / 5 - 12 * pi)"
    by (rule sin_add_npi)
  then have e: "sin (197 / 5 :: real) = sin (197 / 5 - 12 * pi)" by simp
  have "1 / 2 \<le> sin (197 / 5 - 12 * pi)"
    by (rule sin_ge_half) (use pi_gt_312 pi_lt_315 in simp_all)
  then show ?thesis using e by simp
qed

lemma sin_117_5: "sin (117 / 5 :: real) \<le> - (1 / 2)"
proof -
  have "sin ((117 / 5 - 7 * pi) + real 7 * pi) = (- 1) ^ 7 * sin (117 / 5 - 7 * pi)"
    by (rule sin_add_npi)
  then have e: "sin (117 / 5 :: real) = - sin (117 / 5 - 7 * pi)" by simp
  have "1 / 2 \<le> sin (117 / 5 - 7 * pi)"
    by (rule sin_ge_half) (use pi_gt_312 pi_lt_315 in simp_all)
  then show ?thesis using e by simp
qed


subsection \<open>What holds of the lane races\<close>

text \<open>
  In the marble race the winner's duration is exactly 3000 ms and every other duration
  is at least 3500 ms, so whenever a marble has finished, the winner has finished.
\<close>

lemma makeMarbles_durations:
  assumes "\<forall>k. 0 \<le> rnd k"
  shows "\<forall>m \<in> set (makeMarbles wn tp lw mr rnd i k nms).
           (if m_isWinner m then duration m = BASE_DURATION
            else BASE_DURATION + 500 \<le> duration m)"
proof (induction nms arbitrary: i k)
  case Nil
  then show ?case by simp
next
  case (Cons name rest)
  have "0 \<le> rnd k * 1500" using assms by simp
  then show ?case using Cons.IH by (simp add: Let_def)
qed

lemma marble_winner_finishes_first:
  assumes "\<forall>k. 0 \<le> rnd k"
    and "w \<in> set (marbleSetup nms wn width rnd)"
    and "m \<in> set (marbleSetup nms wn width rnd)"
    and "m_isWinner w"
    and "marbleFinished elapsed m"
  shows "duration w = 3000 \<and> (\<not> m_isWinner m \<longrightarrow> 3500 \<le> duration m)
       \<and> marbleFinished elapsed w"
proof -
  have dw: "duration w = 3000"
    using makeMarbles_durations [OF assms(1)] assms(2) assms(4)
    unfolding marbleSetup_def Let_def BASE_DURATION_def by force
  have dm: "if m_isWinner m then duration m = 3000 else 3500 \<le> duration m"
    using makeMarbles_durations [OF assms(1)] assms(3)
    unfolding marbleSetup_def Let_def BASE_DURATION_def by force
  then have pos: "0 < duration m" and ge: "3000 \<le> duration m"
    by (auto split: if_splits)
  have "1 \<le> elapsed / duration m"
    using assms(5) unfolding marbleFinished_def marbleProgress_def by simp
  then have "duration m \<le> elapsed" using pos by (simp add: field_simps)
  then have "1 \<le> elapsed / duration w" using ge dw by simp
  then have "marbleFinished elapsed w"
    unfolding marbleFinished_def marbleProgress_def by simp
  then show ?thesis using dw dm by (auto split: if_splits)
qed

text \<open>
  In the duck race the winner's base speed is 1.15 times \<^verbatim>\<open>maxNonWinnerSpeed\<close>, which
  no other duck's base speed exceeds.
\<close>

lemma fold_max_ge:
  "m0 \<le> fold (\<lambda>d m. if \<not> d_isWinner d then max m (baseSpeed d) else m) ds m0
   \<and> (\<forall>d \<in> set ds. \<not> d_isWinner d \<longrightarrow>
          baseSpeed d \<le> fold (\<lambda>d m. if \<not> d_isWinner d then max m (baseSpeed d) else m) ds m0)"
proof (induction ds arbitrary: m0)
  case Nil
  then show ?case by simp
next
  case (Cons d ds)
  let ?f = "\<lambda>d m. if \<not> d_isWinner d then max m (baseSpeed d) else m"
  have a: "?f d m0 \<le> fold ?f ds (?f d m0)" using Cons.IH [of "?f d m0"] by blast
  have b: "\<forall>e \<in> set ds. \<not> d_isWinner e \<longrightarrow> baseSpeed e \<le> fold ?f ds (?f d m0)"
    using Cons.IH [of "?f d m0"] by blast
  have c: "m0 \<le> ?f d m0" by simp
  have e: "\<not> d_isWinner d \<longrightarrow> baseSpeed d \<le> ?f d m0" by simp
  show ?case using a b c e by auto
qed

lemma duckSetup_speeds:
  assumes "d \<in> set (ducks (duckSetup nms wn width rnd))"
  shows "if d_isWinner d
         then baseSpeed d
                = maxNonWinnerSpeed
                    (initialDucks nms wn (min (width * 0.8) 600 / (real (length nms) + 1)) rnd)
                  * WINNER_BOOST
         else baseSpeed d
                \<le> maxNonWinnerSpeed
                    (initialDucks nms wn (min (width * 0.8) 600 / (real (length nms) + 1)) rnd)"
proof -
  let ?ds = "initialDucks nms wn (min (width * 0.8) 600 / (real (length nms) + 1)) rnd"
  obtain e where e: "e \<in> set ?ds"
      "d = (if d_isWinner e then e\<lparr>baseSpeed := maxNonWinnerSpeed ?ds * WINNER_BOOST\<rparr> else e)"
    using assms unfolding duckSetup_def Let_def by auto
  show ?thesis
  proof (cases "d_isWinner e")
    case True
    then show ?thesis using e(2) by simp
  next
    case False
    then have "baseSpeed e \<le> maxNonWinnerSpeed ?ds"
      using fold_max_ge [of MIN_SPEED ?ds] e(1) unfolding maxNonWinnerSpeed_def by blast
    then show ?thesis using e(2) False by simp
  qed
qed

subsection \<open>The example duck race\<close>

lemma duckRaceStart_value:
  "duckRaceStart =
     \<lparr>ducks = [\<lparr>d_name = ''John'', d_x = 50, d_y = 80, baseSpeed = 184, d_isWinner = True\<rparr>,
               \<lparr>d_name = ''Jane'', d_x = 50, d_y = 160, baseSpeed = 160, d_isWinner = False\<rparr>,
               \<lparr>d_name = ''Alice'', d_x = 50, d_y = 240, baseSpeed = 160, d_isWinner = False\<rparr>,
               \<lparr>d_name = ''Bob'', d_x = 50, d_y = 320, baseSpeed = 160, d_isWinner = False\<rparr>,
               \<lparr>d_name = ''Charlie'', d_x = 50, d_y = 400, baseSpeed = 160, d_isWinner = False\<rparr>,
               \<lparr>d_name = ''Diana'', d_x = 50, d_y = 480, baseSpeed = 160, d_isWinner = False\<rparr>],
      finishLineX = 625, duckStartTimeRef = 0, lastTime = 0,
      duckWinnerDeclared = False, raceEndTimers = 0, frameRequested = True\<rparr>"
  by (simp add: duckRaceStart_def duckSetup_def initialDucks_def maxNonWinnerSpeed_def
      defaultNames_def FINISH_BUFFER_def START_X_def MIN_SPEED_def MAX_SPEED_def
      WINNER_BOOST_def Let_def)

lemma duckRace_first_frame:
  "duckAnimate 4040 duckRaceStart =
     duckRaceStart\<lparr>duckStartTimeRef := 4040, lastTime := 4040\<rparr>"
  unfolding duckRaceStart_value
  by (simp add: duckAnimate_def moveDuck_def Let_def)


lemma duckRace_second_frame:
  "finishLineX duckRaceFrames = 625"
  "ducks duckRaceFrames ! 0 =
     moveDuck 7400 (84 / 25) 625
       \<lparr>d_name = ''John'', d_x = 50, d_y = 80, baseSpeed = 184, d_isWinner = True\<rparr>"
  "ducks duckRaceFrames ! 1 =
     moveDuck 7400 (84 / 25) 625
       \<lparr>d_name = ''Jane'', d_x = 50, d_y = 160, baseSpeed = 160, d_isWinner = False\<rparr>"
  unfolding duckRaceFrames_def duckRace_first_frame
  unfolding duckRaceStart_value
  by (simp_all add: duckAnimate_def Let_def)

lemma john_second_frame:
  "d_x (moveDuck 7400 (84 / 25) 625
         \<lparr>d_name = ''John'', d_x = 50, d_y = 80, baseSpeed = 184, d_isWinner = True\<rparr>) < 625"
proof -
  have s: "sin (117 / 5 :: real) \<le> - (1 / 2)" by (rule sin_117_5)
  have "50 + 184 * (1 + sin (117 / 5 :: real) * (15 / 100)) * (84 / 25) < 625"
    using s by simp
  then show ?thesis
    by (simp add: moveDuck_def Let_def)
qed

lemma jane_second_frame:
  "d_x (moveDuck 7400 (84 / 25) 625
         \<lparr>d_name = ''Jane'', d_x = 50, d_y = 160, baseSpeed = 160, d_isWinner = False\<rparr>) = 625"
proof -
  have s: "1 / 2 \<le> sin (197 / 5 :: real)" by (rule sin_197_5)
  have "625 \<le> 50 + 160 * (1 + sin (197 / 5 :: real) * (15 / 100)) * (84 / 25)"
    using s by simp
  then show ?thesis
    by (simp add: moveDuck_def Let_def)
qed

text \<open>
  C2. The duck race of the six default names with \<open>John\<close> as the designated winner,
  after the frames at 4040 ms and 7400 ms: the wobble factor of \<open>Jane\<close> is at least
  1.075 and that of \<open>John\<close> at most 0.925, so \<open>Jane\<close>, who is not the winner, stands on
  the finish line while \<open>John\<close> has not reached it.
\<close>

theorem C2_wobble_lets_another_duck_finish_first:
  "d_name (ducks duckRaceFrames ! 0) = ''John''
   \<and> d_isWinner (ducks duckRaceFrames ! 0)
   \<and> d_x (ducks duckRaceFrames ! 0) < finishLineX duckRaceFrames
   \<and> d_name (ducks duckRaceFrames ! 1) = ''Jane''
   \<and> \<not> d_isWinner (ducks duckRaceFrames ! 1)
   \<and> d_x (ducks duckRaceFrames ! 1) = finishLineX duckRaceFrames"
  unfolding duckRace_second_frame
  using john_second_frame jane_second_frame
  by (simp add: moveDuck_def Let_def)

end
